theory Spec2Isabelle
  imports Main "HOL-Library.Sublist" "HOL-Library.AList"
begin

section \<open>JavaScript values used by the executor\<close>

text \<open>
  An optional property of a JavaScript object is absent (\<open>undefined\<close>), \<open>null\<close>, or holds
  a value. Node's \<open>url.parse\<close> fills missing components with \<open>null\<close>; an object literal
  that leaves a property out reads as \<open>undefined\<close>.
\<close>

datatype 'a maybe = Undefined | Null | Val 'a

text \<open>The values a promise of the executor resolves with, and the payload of an error.\<close>

datatype jsval =
    JUndefined
  | JNull
  | JBool bool
  | JNum int
  | JStr string
  | JArr "jsval list"
  | JObj "(string \<times> jsval) list"

text \<open>Interpolation \<open>${x}\<close> of an optional string in a template literal.\<close>

fun interpolate :: "string maybe \<Rightarrow> string" where
  "interpolate Undefined = ''undefined''"
| "interpolate Null = ''null''"
| "interpolate (Val s) = s"

definition digit_char :: "nat \<Rightarrow> char" where
  "digit_char d =
     (if d = 0 then CHR ''0'' else if d = 1 then CHR ''1'' else if d = 2 then CHR ''2''
      else if d = 3 then CHR ''3'' else if d = 4 then CHR ''4'' else if d = 5 then CHR ''5''
      else if d = 6 then CHR ''6'' else if d = 7 then CHR ''7'' else if d = 8 then CHR ''8''
      else CHR ''9'')"

text \<open>Interpolation of a non-negative integer: its decimal digits.\<close>

fun show_nat :: "nat \<Rightarrow> string" where
  "show_nat n =
     (if n < 10 then [digit_char n] else show_nat (n div 10) @ [digit_char (n mod 10)])"

declare show_nat.simps [simp del]

text \<open>\<open>s.includes(x)\<close>, also \<open>s.indexOf(x) !== -1\<close>: \<open>x\<close> occurs in \<open>s\<close> at some position.\<close>

fun str_includes :: "string \<Rightarrow> string \<Rightarrow> bool" where
  "str_includes [] x = (x = [])"
| "str_includes (c # cs) x = (prefix x (c # cs) \<or> str_includes cs x)"

text \<open>\<open>token.startsWith("Basic")\<close>.\<close>

definition startsWith :: "string \<Rightarrow> string \<Rightarrow> bool" where
  "startsWith s p = prefix p s"

section \<open>Requests, responses and errors\<close>

text \<open>
  The object \<open>url.parse\<close> returns. Only the components that are also properties of
  \<open>Electron.RequestOptions\<close> are kept: the others (\<open>href\<close>, \<open>pathname\<close>, \<open>search\<close>,
  \<open>query\<close>, \<open>hash\<close>, \<open>auth\<close>, \<open>slashes\<close>) are never read by the executor.
\<close>

record parsed_url =
  url_protocol :: "string maybe"
  url_host :: "string maybe"
  url_port :: "string maybe"
  url_hostname :: "string maybe"
  url_path :: "string maybe"

text \<open>
  \<open>Electron.RequestOptions\<close>. The headers are a value \<open>'h\<close>: the header mapping itself
  where the object is a snapshot handed to \<open>net.request\<close>, a reference into the store
  where the object lives on the heap and may be shared.
\<close>

record 'h request_options =
  "method" :: "string maybe"
  protocol :: "string maybe"
  host :: "string maybe"
  hostname :: "string maybe"
  port :: "string maybe"
  path :: "string maybe"
  headers :: "'h maybe"

type_synonym header_map = "(string \<times> string) list"

text \<open>
  A response header is read dynamically: Electron delivers every value as an array of
  strings, Node's own client delivers a bare string.
\<close>

datatype header_value = HString string | HArray "string list"

record response =
  statusCode :: nat
  statusMessage :: string
  headers :: "(string \<times> header_value) list"
  body :: string

datatype error =
    Error string
  | HttpError response "jsval option"
  | TypeError
  | SyntaxError string
  | YAMLException string

text \<open>\<open>DownloadOptions\<close>; the executor reads \<open>skipDirCreation\<close> only.\<close>

record download_options =
  skipDirCreation :: "bool maybe"

section \<open>Collaborators\<close>

text \<open>
  Functions the executor imports and that are not part of its source file: \<open>parse\<close> of
  Node's \<open>url\<close> module, \<open>JSON.parse\<close>, \<open>safeLoad\<close> of js-yaml, \<open>ensureDir\<close>,
  \<open>path.dirname\<close>, and \<open>maxRedirects\<close>, \<open>safeGetHeader\<close> and \<open>configurePipes\<close> of
  the package electron-builder-http. They are parameters of the model.
  \<open>safeGetHeader\<close> returns the header's value or nothing; \<open>configurePipes\<close> streams the
  response to the destination and returns what it passes to the callback (nothing on
  success); a parser returns the parsed value or the exception it throws.
\<close>

record env =
  parseUrl :: "string \<Rightarrow> parsed_url"
  maxRedirects :: nat
  safeGetHeader :: "response \<Rightarrow> string \<Rightarrow> string option"
  configurePipes :: "download_options \<Rightarrow> response \<Rightarrow> string \<Rightarrow> error option"
  ensureDir :: "string \<Rightarrow> error option"
  dirname :: "string \<Rightarrow> string"
  JSON_parse :: "string \<Rightarrow> error + jsval"
  safeLoad :: "string \<Rightarrow> error + jsval"

section \<open>The network and the observable effects\<close>

text \<open>
  What happens to one request (one attempt): a response arrives, the request fails with
  an error before any response (its \<open>error\<close> event, or the request processor calling
  \<open>reject\<close>), or its socket is idle for 60 seconds. A logical call is run against the
  list of what happens to its first, second, ... request; when the list is used up the
  pending request is never answered.
\<close>

datatype reply = Response response | RequestError error | SocketTimeout

text \<open>
  Effects in the order they happen. Requests are numbered as they are created.
\<close>

datatype event =
    EnsureDir string
  | NetRequest nat "header_map request_options"
  | RequestProcessor nat
  | Abort nat
  | ReadBody nat
  | Pipe string response

text \<open>How often the callback of \<open>doDownload\<close> has been called, and with what.\<close>

datatype callback = NotCalled | Called "error option"

datatype outcome = Pending | Resolved jsval | Rejected error | Thrown error

section \<open>download\<close>

text \<open>
  The object literal \<open>requestOpts\<close> of \<open>doDownload\<close>: protocol, hostname and path of
  the parsed URL and one header.
\<close>

definition requestOpts :: "parsed_url \<Rightarrow> header_map request_options" where
  "requestOpts parsedUrl =
     \<lparr> method = Undefined,
       protocol = url_protocol parsedUrl,
       host = Undefined,
       hostname = url_hostname parsedUrl,
       port = Undefined,
       path = url_path parsedUrl,
       headers = Val [(''User-Agent'', ''electron-builder'')] \<rparr>"

definition cannot_download :: "string \<Rightarrow> response \<Rightarrow> string" where
  "cannot_download url response =
     ''Cannot download '' @ [CHR 0x22] @ url @ [CHR 0x22] @ '', status ''
       @ show_nat (statusCode response) @ '': '' @ statusMessage response"

definition too_many_redirects :: "nat \<Rightarrow> string" where
  "too_many_redirects n = ''Too many redirects (> '' @ show_nat n @ '')''"

text \<open>
  \<open>doDownload\<close>. The requests of one logical call are numbered from \<open>n\<close>. The
  recursive call is \<open>this.doDownload(redirectUrl, destination, redirectCount++, ...)\<close>:
  the value of a postfix increment is the value before the increment, so the recursion
  receives \<open>redirectCount\<close>.
\<close>

fun doDownload ::
  "env \<Rightarrow> string \<Rightarrow> string \<Rightarrow> nat \<Rightarrow> download_options \<Rightarrow> nat \<Rightarrow> reply list
     \<Rightarrow> callback \<times> event list" where
  "doDownload E url destination redirectCount options n [] =
     (NotCalled, [NetRequest n (requestOpts (parseUrl E url))])"
| "doDownload E url destination redirectCount options n (SocketTimeout # rest) =
     (Called (Some (Error ''Request timed out'')),
      [NetRequest n (requestOpts (parseUrl E url)), Abort n])"
| "doDownload E url destination redirectCount options n (RequestError e # rest) =
     (Called (Some e), [NetRequest n (requestOpts (parseUrl E url))])"
| "doDownload E url destination redirectCount options n (Response response # rest) =
     (if statusCode response \<ge> 400 then
        (Called (Some (Error (cannot_download url response))),
         [NetRequest n (requestOpts (parseUrl E url))])
      else
        (case safeGetHeader E response ''location'' of
           Some redirectUrl \<Rightarrow>
             if redirectCount < maxRedirects E then
               (case doDownload E redirectUrl destination redirectCount options (Suc n) rest of
                  (result, evs) \<Rightarrow> (result, NetRequest n (requestOpts (parseUrl E url)) # evs))
             else
               (Called (Some (Error (too_many_redirects (maxRedirects E)))),
                [NetRequest n (requestOpts (parseUrl E url))])
         | None \<Rightarrow>
             (Called (configurePipes E options response destination),
              [NetRequest n (requestOpts (parseUrl E url)), Pipe destination response])))"

text \<open>\<open>!options.skipDirCreation\<close>.\<close>

fun falsy :: "bool maybe \<Rightarrow> bool" where
  "falsy (Val b) = (\<not> b)"
| "falsy _ = True"

fun settled :: "string \<Rightarrow> callback \<Rightarrow> outcome" where
  "settled destination NotCalled = Pending"
| "settled destination (Called None) = Resolved (JStr destination)"
| "settled destination (Called (Some e)) = Rejected e"

text \<open>
  \<open>download\<close>: the directory of the destination is created unless the options say
  otherwise, then \<open>doDownload\<close> starts with a redirect count of 0 and \<open>options || {}\<close>.
\<close>

definition download ::
  "env \<Rightarrow> string \<Rightarrow> string \<Rightarrow> download_options maybe \<Rightarrow> reply list \<Rightarrow> outcome \<times> event list" where
  "download E url destination options replies =
     (let mkdir = (case options of Val opts \<Rightarrow> falsy (skipDirCreation opts) | _ \<Rightarrow> True);
          opts = (case options of Val opts \<Rightarrow> opts | _ \<Rightarrow> \<lparr> skipDirCreation = Undefined \<rparr>);
          dirs = (if mkdir then [EnsureDir (dirname E destination)] else [])
      in
        case (if mkdir then ensureDir E (dirname E destination) else None) of
          Some e \<Rightarrow> (Rejected e, dirs)
        | None \<Rightarrow>
            (case doDownload E url destination 0 opts 0 replies of
               (result, evs) \<Rightarrow> (settled destination result, dirs @ evs)))"

section \<open>doApiRequest\<close>

text \<open>
  The options object of an API request lives in a store, because the executor writes to
  the object it is given and a redirect copies it shallowly: \<open>options_at\<close> holds the
  option objects, \<open>headers_at\<close> the header objects they refer to, \<open>next_options\<close> is
  the address of the next object to be created, \<open>next_request\<close> the number of the next
  request.
\<close>

type_synonym ref = nat

record store =
  options_at :: "ref \<Rightarrow> ref request_options"
  headers_at :: "ref \<Rightarrow> header_map"
  next_options :: ref
  next_request :: nat

text \<open>\<open>token.startsWith("Basic") ? token : `token ${token}`\<close>\<close>

definition authorization :: "string \<Rightarrow> string" where
  "authorization token = (if startsWith token ''Basic'' then token else ''token '' @ token)"

text \<open>
  \<open>(<any>requestOptions.headers).authorization = ...\<close> when a token is given.
  \<open>requestOptions\<close> is another name for \<open>options\<close>, so the assignment writes to the
  header object the caller's options refer to. Writing a property of a missing
  \<open>headers\<close> raises a TypeError.
\<close>

definition setAuthorization :: "ref \<Rightarrow> string option \<Rightarrow> store \<Rightarrow> error + store" where
  "setAuthorization options token s =
     (case token of
        None \<Rightarrow> Inr s
      | Some t \<Rightarrow>
          (case request_options.headers (options_at s options) of
             Val h \<Rightarrow>
               Inr (s\<lparr> headers_at := (headers_at s)
                      (h := AList.update ''authorization'' (authorization t) (headers_at s h)) \<rparr>)
           | _ \<Rightarrow> Inl TypeError))"

text \<open>\<open>requestOptions.protocol = "https:"\<close>, again on the caller's object.\<close>

definition forceHttps :: "ref \<Rightarrow> store \<Rightarrow> store" where
  "forceHttps options s =
     s\<lparr> options_at := (options_at s)
          (options := (options_at s options)\<lparr> protocol := Val ''https:'' \<rparr>) \<rparr>"

text \<open>The statements of \<open>doApiRequest\<close> before the promise is created.\<close>

definition prepare :: "ref \<Rightarrow> string option \<Rightarrow> store \<Rightarrow> error + store" where
  "prepare options token s =
     (case setAuthorization options token s of
        Inl e \<Rightarrow> Inl e
      | Inr s' \<Rightarrow> Inr (forceHttps options s'))"

text \<open>What \<open>net.request(options, ...)\<close> reads: the object with its headers.\<close>

definition snapshot :: "store \<Rightarrow> ref \<Rightarrow> header_map request_options" where
  "snapshot s options =
     (let ob = options_at s options in
      \<lparr> method = method ob, protocol = protocol ob, host = host ob, hostname = hostname ob,
        port = port ob, path = path ob,
        headers = map_maybe (headers_at s) (request_options.headers ob) \<rparr>)"

text \<open>
  \<open>net.request\<close>, the timeout handler, the error handler and the call of
  \<open>requestProcessor\<close> with the new request.
\<close>

definition issue :: "store \<Rightarrow> ref \<Rightarrow> event list" where
  "issue s options =
     [NetRequest (next_request s) (snapshot s options), RequestProcessor (next_request s)]"

definition sent :: "store \<Rightarrow> store" where
  "sent s = s\<lparr> next_request := Suc (next_request s) \<rparr>"

text \<open>
  \<open>Object.assign({}, options, parseUrl(redirectUrl))\<close>: a new object with the
  properties of \<open>options\<close> (the reference to the headers among them), then those of the
  parsed URL, which are all present.
\<close>

definition assign :: "ref request_options \<Rightarrow> parsed_url \<Rightarrow> ref request_options" where
  "assign options parsed =
     options\<lparr> protocol := url_protocol parsed, host := url_host parsed,
              port := url_port parsed, hostname := url_hostname parsed,
              path := url_path parsed \<rparr>"

definition new_options :: "ref request_options \<Rightarrow> store \<Rightarrow> ref \<times> store" where
  "new_options ob s =
     (next_options s,
      s\<lparr> options_at := (options_at s)(next_options s := ob),
         next_options := Suc (next_options s) \<rparr>)"

definition not_found_message :: "'h request_options \<Rightarrow> string" where
  "not_found_message options =
     ''method: '' @ interpolate (method options) @ '' url: https://''
       @ interpolate (hostname options) @ interpolate (path options) @ [CHR 0x0A, CHR 0x0A]
       @ ''Please double check that your authentication token is correct. ''
       @ ''Due to security reasons actual status maybe not reported, but 404.''
       @ [CHR 0x0A]"

text \<open>Truthiness of what \<open>Array.prototype.find\<close> returns: an element or \<open>undefined\<close>.\<close>

fun truthy :: "string option \<Rightarrow> bool" where
  "truthy None = False"
| "truthy (Some x) = (x \<noteq> [])"

text \<open>
  \<open>contentType != null && contentType.find((i) => i.indexOf("json") !== -1)\<close>. A string
  has no method \<open>find\<close>: the call raises a TypeError.
\<close>

definition isJson :: "response \<Rightarrow> error + bool" where
  "isJson response =
     (case map_of (response.headers response) ''content-type'' of
        None \<Rightarrow> Inr False
      | Some (HArray contentType) \<Rightarrow> Inr (truthy (find (\<lambda>i. str_includes i ''json'') contentType))
      | Some (HString contentType) \<Rightarrow> Inl TypeError)"

text \<open>\<open>options.path!.includes(".yml")\<close>; the assertion \<open>!\<close> is erased by the compiler.\<close>

definition isYaml :: "'h request_options \<Rightarrow> error + bool" where
  "isYaml options =
     (case path options of Val p \<Rightarrow> Inr (str_includes p ''.yml'') | _ \<Rightarrow> Inl TypeError)"

text \<open>
  The handler of the response's \<open>end\<close> event; \<open>data\<close> is the whole body. Every
  exception is caught and rejects.
\<close>

definition onEnd :: "env \<Rightarrow> 'h request_options \<Rightarrow> response \<Rightarrow> outcome" where
  "onEnd E options response =
     (let data = body response in
      case isJson response of
        Inl e \<Rightarrow> Rejected e
      | Inr json \<Rightarrow>
          (case isYaml options of
             Inl e \<Rightarrow> Rejected e
           | Inr yaml \<Rightarrow>
               if statusCode response \<ge> 400 then
                 (if json then
                    (case JSON_parse E data of
                       Inl e \<Rightarrow> Rejected e
                     | Inr v \<Rightarrow> Rejected (HttpError response (Some v)))
                  else Rejected (HttpError response None))
               else if length data = 0 then Resolved JNull
               else if json then
                 (case JSON_parse E data of Inl e \<Rightarrow> Rejected e | Inr v \<Rightarrow> Resolved v)
               else if yaml then
                 (case safeLoad E data of Inl e \<Rightarrow> Rejected e | Inr v \<Rightarrow> Resolved v)
               else Resolved (JStr data)))"

text \<open>A promise settles once: later calls of \<open>resolve\<close> and \<open>reject\<close> do nothing.\<close>

fun settle :: "outcome \<Rightarrow> outcome \<Rightarrow> outcome" where
  "settle Pending later = later"
| "settle first later = first"

text \<open>
  An exception of the recursive call is caught by the handler around the response
  callback and rejects; its promise is passed on by \<open>.then(resolve).catch(reject)\<close>.
\<close>

fun caught :: "outcome \<Rightarrow> outcome" where
  "caught (Thrown e) = Rejected e"
| "caught result = result"

text \<open>
  \<open>doApiRequest\<close>. After the rejection for status 404 there is no \<open>return\<close>: the
  callback goes on, and what it does later cannot settle the promise again. The recursive
  call passes three arguments, so its \<open>redirectCount\<close> is the default 0.
\<close>

fun doApiRequest ::
  "env \<Rightarrow> ref \<Rightarrow> string option \<Rightarrow> nat \<Rightarrow> reply list \<Rightarrow> store
     \<Rightarrow> outcome \<times> event list \<times> store" where
  "doApiRequest E options token redirectCount [] s =
     (case prepare options token s of
        Inl e \<Rightarrow> (Thrown e, [], s)
      | Inr s1 \<Rightarrow> (Pending, issue s1 options, sent s1))"
| "doApiRequest E options token redirectCount (SocketTimeout # rest) s =
     (case prepare options token s of
        Inl e \<Rightarrow> (Thrown e, [], s)
      | Inr s1 \<Rightarrow>
          (Rejected (Error ''Request timed out''),
           issue s1 options @ [Abort (next_request s1)], sent s1))"
| "doApiRequest E options token redirectCount (RequestError e # rest) s =
     (case prepare options token s of
        Inl e \<Rightarrow> (Thrown e, [], s)
      | Inr s1 \<Rightarrow> (Rejected e, issue s1 options, sent s1))"
| "doApiRequest E options token redirectCount (Response response # rest) s =
     (case prepare options token s of
        Inl e \<Rightarrow> (Thrown e, [], s)
      | Inr s1 \<Rightarrow>
          (let first =
                 (if statusCode response = 404 then
                    Rejected (HttpError response
                      (Some (JStr (not_found_message (options_at s1 options)))))
                  else Pending)
           in
             if statusCode response \<noteq> 404 \<and> statusCode response = 204 then
               (Resolved JUndefined, issue s1 options, sent s1)
             else
               (case safeGetHeader E response ''location'' of
                  Some redirectUrl \<Rightarrow>
                    if redirectCount > 10 then
                      (settle first (Rejected (Error ''Too many redirects (> 10)'')),
                       issue s1 options, sent s1)
                    else
                      (case new_options
                              (assign (options_at s1 options) (parseUrl E redirectUrl))
                              (sent s1) of
                         (options', s2) \<Rightarrow>
                           (case doApiRequest E options' token 0 rest s2 of
                              (result, evs, s3) \<Rightarrow>
                                (settle first (caught result), issue s1 options @ evs, s3)))
                | None \<Rightarrow>
                    (settle first (onEnd E (options_at s1 options) response),
                     issue s1 options @ [ReadBody (next_request s1)], sent s1))))"

section \<open>Observations on the effects\<close>

text \<open>The requests handed to the request processor, and the requests created, in order.\<close>

fun processor_calls :: "event list \<Rightarrow> nat list" where
  "processor_calls [] = []"
| "processor_calls (RequestProcessor i # evs) = i # processor_calls evs"
| "processor_calls (e # evs) = processor_calls evs"

fun requests :: "event list \<Rightarrow> nat list" where
  "requests [] = []"
| "requests (NetRequest i d # evs) = i # requests evs"
| "requests (e # evs) = requests evs"

section \<open>Example collaborators and inputs\<close>

text \<open>
  Modelled from the spec: \<open>safeGetHeader\<close> of electron-builder-http, whose source is not
  part of the executor's file. The spec describes a header lookup that tolerates a header
  appearing as a single value or as a sequence of values and that may find nothing; this
  instance takes the last value of a sequence. It is used in the examples only: the
  theorems hold for every \<open>safeGetHeader\<close>.
\<close>

definition lastValue :: "response \<Rightarrow> string \<Rightarrow> string option" where
  "lastValue response headerKey =
     (case map_of (response.headers response) headerKey of
        None \<Rightarrow> None
      | Some (HString v) \<Rightarrow> Some v
      | Some (HArray vs) \<Rightarrow> (if vs = [] then None else Some (last vs)))"

text \<open>
  An instance of \<open>url.parse\<close> for the examples: one absolute URL with a port, and every
  other string taken as a path.
\<close>

definition example_parseUrl :: "string \<Rightarrow> parsed_url" where
  "example_parseUrl u =
     (if u = ''https://example.org:8443/a/latest.yml'' then
        \<lparr> url_protocol = Val ''https:'', url_host = Val ''example.org:8443'',
          url_port = Val ''8443'', url_hostname = Val ''example.org'',
          url_path = Val ''/a/latest.yml'' \<rparr>
      else
        \<lparr> url_protocol = Null, url_host = Null, url_port = Null, url_hostname = Null,
          url_path = Val u \<rparr>)"

text \<open>The text \<open>{"a":1}\<close>.\<close>

definition json_a1 :: string where
  "json_a1 = [CHR ''{'', CHR 0x22, CHR ''a'', CHR 0x22, CHR '':'', CHR ''1'', CHR ''}'']"

text \<open>
  Collaborators for the examples: a single-digit download redirect bound, a download
  that always succeeds, and parsers that know one JSON text and one YAML text.
\<close>

definition example_env :: env where
  "example_env =
     \<lparr> parseUrl = example_parseUrl,
       maxRedirects = 5,
       safeGetHeader = lastValue,
       configurePipes = (\<lambda>options response destination. None),
       ensureDir = (\<lambda>dir. None),
       dirname = (\<lambda>p. ''/tmp''),
       JSON_parse = (\<lambda>text. if text = json_a1 then Inr (JObj [(''a'', JNum 1)])
                             else Inl (SyntaxError ''Unexpected token'')),
       safeLoad = (\<lambda>text. if text = ''version: 1.2.3'' then Inr (JObj [(''version'', JStr ''1.2.3'')])
                           else Inl (YAMLException ''bad indentation'')) \<rparr>"

text \<open>
  A store with two option objects of a caller (addresses 0 and 1) that share the header
  object 0.
\<close>

definition example_store :: store where
  "example_store =
     \<lparr> options_at = (\<lambda>r. \<lparr> method = Val ''GET'', protocol = Val ''http:'', host = Undefined,
                             hostname = Val ''api.example.org'', port = Undefined,
                             path = Val ''/repos/a/releases'', headers = Val 0 \<rparr>),
       headers_at = (\<lambda>r. [(''Accept'', ''application/json'')]),
       next_options = 2,
       next_request = 0 \<rparr>"

definition redirect_to :: "string \<Rightarrow> response" where
  "redirect_to u = \<lparr> statusCode = 302, statusMessage = ''Found'',
                     headers = [(''location'', HArray [u])], body = '''' \<rparr>"

definition ok_text :: "string \<Rightarrow> response" where
  "ok_text b = \<lparr> statusCode = 200, statusMessage = ''OK'', headers = [], body = b \<rparr>"

definition ok_json :: response where
  "ok_json = \<lparr> statusCode = 200, statusMessage = ''OK'',
               headers = [(''content-type'', HArray [''application/json; charset=utf-8''])],
               body = json_a1 \<rparr>"

definition json_single :: response where
  "json_single = \<lparr> statusCode = 200, statusMessage = ''OK'',
               headers = [(''content-type'', HString ''application/json'')],
               body = json_a1 \<rparr>"

definition no_content :: response where
  "no_content = \<lparr> statusCode = 204, statusMessage = ''No Content'',
               headers = [(''content-type'', HArray [''application/json''])],
               body = json_a1 \<rparr>"

definition not_found :: response where
  "not_found = \<lparr> statusCode = 404, statusMessage = ''Not Found'',
               headers = [], body = [] \<rparr>"


section \<open>Strings\<close>

lemma str_includes_iff: "str_includes s x \<longleftrightarrow> sublist x s"
  by (induction s) (simp_all add: sublist_Cons_right)

lemma sublist_skip: "sublist x ys \<Longrightarrow> sublist x (a @ ys)"
  unfolding sublist_def by (metis append.assoc)


lemma sublist_not_found_message:
  "sublist (interpolate (method ob)) (not_found_message ob)
   \<and> sublist (interpolate (hostname ob)) (not_found_message ob)
   \<and> sublist (interpolate (path ob)) (not_found_message ob)
   \<and> sublist ''Please double check that your authentication token is correct''
        (not_found_message ob)"
proof (intro conjI)
  show "sublist (interpolate (method ob)) (not_found_message ob)"
    unfolding not_found_message_def
    by (rule sublist_skip, rule sublist_append_rightI)
  show "sublist (interpolate (hostname ob)) (not_found_message ob)"
    unfolding not_found_message_def
    by (rule sublist_skip, rule sublist_skip, rule sublist_skip, rule sublist_append_rightI)
  show "sublist (interpolate (path ob)) (not_found_message ob)"
    unfolding not_found_message_def
    by (rule sublist_skip, rule sublist_skip, rule sublist_skip, rule sublist_skip,
        rule sublist_append_rightI)
  have "''Please double check that your authentication token is correct. '' =
        ''Please double check that your authentication token is correct'' @ ''. ''"
    by simp
  then have hint: "sublist ''Please double check that your authentication token is correct''
     (''Please double check that your authentication token is correct. '' @ rest)" for rest
    using sublist_append_rightI
      [of "''Please double check that your authentication token is correct''" "''. '' @ rest"]
    by simp
  show "sublist ''Please double check that your authentication token is correct''
     (not_found_message ob)"
    unfolding not_found_message_def
    by (rule sublist_skip, rule sublist_skip, rule sublist_skip, rule sublist_skip,
        rule sublist_skip, rule sublist_skip, rule hint)
qed

lemma truthy_find_json:
  "truthy (find (\<lambda>i. str_includes i ''json'') vs) \<longleftrightarrow> (\<exists>v \<in> set vs. sublist ''json'' v)"
proof (induction vs)
  case Nil
  then show ?case by simp
next
  case (Cons v vs')
  have "str_includes v ''json'' \<Longrightarrow> v \<noteq> []" by auto
  with Cons show ?case by (auto simp: str_includes_iff)
qed

lemma distinct_count_le_1: "distinct xs \<Longrightarrow> count_list xs x \<le> 1"
  by (induction xs) (auto simp: count_list_0_iff)

lemma ok_text_simps:
  "statusCode (ok_text b) = 200" "lastValue (ok_text b) ''location'' = None"
  by (simp_all add: ok_text_def lastValue_def)

lemma redirect_to_simps:
  "statusCode (redirect_to u) = 302" "lastValue (redirect_to u) ''location'' = Some u"
  by (simp_all add: redirect_to_def lastValue_def)

section \<open>Properties of download\<close>

lemma doDownload_first:
  "hd (snd (doDownload E url destination redirectCount options n replies)) =
     NetRequest n (requestOpts (parseUrl E url))"
  by (induction E url destination redirectCount options n replies rule: doDownload.induct)
     (auto split: option.splits prod.splits)

lemma doDownload_requests:
  "NetRequest i d \<in> set (snd (doDownload E url destination redirectCount options n replies)) \<Longrightarrow>
   \<exists>u. (u = url \<or> (\<exists>r. Response r \<in> set replies \<and> safeGetHeader E r ''location'' = Some u))
       \<and> d = requestOpts (parseUrl E u)"
proof (induction replies arbitrary: url n)
  case Nil
  then show ?case by simp
next
  case (Cons reply rest)
  show ?case
  proof (cases reply)
    case (Response response)
    show ?thesis
    proof (cases "statusCode response < 400 \<and> redirectCount < maxRedirects E
                  \<and> safeGetHeader E response ''location'' \<noteq> None")
      case True
      then obtain u where u: "safeGetHeader E response ''location'' = Some u" by auto
      with True Cons.prems Response
      have "d = requestOpts (parseUrl E url)
            \<or> NetRequest i d \<in> set (snd (doDownload E u destination redirectCount options (Suc n) rest))"
        by (auto simp add: case_prod_beta)
      then show ?thesis
      proof
        assume "d = requestOpts (parseUrl E url)"
        then show ?thesis by blast
      next
        assume "NetRequest i d \<in> set (snd (doDownload E u destination redirectCount options (Suc n) rest))"
        from Cons.IH [OF this] obtain u' where
          "u' = u \<or> (\<exists>r. Response r \<in> set rest \<and> safeGetHeader E r ''location'' = Some u')"
          "d = requestOpts (parseUrl E u')"
          by blast
        with u Response show ?thesis by auto
      qed
    next
      case False
      with Cons.prems Response have "d = requestOpts (parseUrl E url)"
        by (auto split: option.splits if_splits)
      then show ?thesis by blast
    qed
  next
    case (RequestError e)
    with Cons.prems show ?thesis by auto
  next
    case SocketTimeout
    with Cons.prems show ?thesis by auto
  qed
qed


lemma doDownload_redirect:
  assumes "statusCode r < 400" and "safeGetHeader E r ''location'' = Some u"
      and "redirectCount < maxRedirects E"
  shows "fst (doDownload E url destination redirectCount options n (Response r # rest)) =
         fst (doDownload E u destination redirectCount options (Suc n) rest)"
  using assms by (simp split: prod.splits)

lemma doDownload_follows:
  assumes "redirectCount < maxRedirects E"
      and "\<forall>r \<in> set rs. statusCode r < 400 \<and> safeGetHeader E r ''location'' = Some u"
  shows "fst (doDownload E url destination redirectCount options n
                (map Response rs @ Response r # rest)) =
         fst (doDownload E (if rs = [] then url else u) destination redirectCount options
                (n + length rs) (Response r # rest))"
  using assms
proof (induction rs arbitrary: url n)
  case Nil
  then show ?case by simp
next
  case (Cons a rs)
  have "fst (doDownload E url destination redirectCount options n
               (map Response (a # rs) @ Response r # rest)) =
        fst (doDownload E u destination redirectCount options (Suc n)
               (map Response rs @ Response r # rest))"
    using Cons.prems by (simp add: doDownload_redirect del: doDownload.simps)
  also have "\<dots> = fst (doDownload E u destination redirectCount options
                        (Suc n + length rs) (Response r # rest))"
    using Cons.prems Cons.IH [of u "Suc n"] by simp
  finally show ?case by simp
qed

lemma doDownload_redirect_events:
  assumes "statusCode r < 400" and "safeGetHeader E r ''location'' = Some u"
      and "redirectCount < maxRedirects E"
  shows "snd (doDownload E url destination redirectCount options n (Response r # rest)) =
         NetRequest n (requestOpts (parseUrl E url))
           # snd (doDownload E u destination redirectCount options (Suc n) rest)"
  using assms by (simp add: case_prod_beta)

lemma doDownload_chain:
  assumes "redirectCount < maxRedirects E"
      and "\<forall>(r, u) \<in> set hops. statusCode r < 400 \<and> safeGetHeader E r ''location'' = Some u"
  shows "snd (doDownload E url destination redirectCount options n
                (map (\<lambda>(r, u). Response r) hops @ rest)) =
         map (\<lambda>(i, u). NetRequest i (requestOpts (parseUrl E u)))
             (zip [n ..< n + length hops] (url # map snd hops))
         @ snd (doDownload E (last (url # map snd hops)) destination redirectCount options
                  (n + length hops) rest)"
  using assms(2)
proof (induction hops arbitrary: url n)
  case Nil
  then show ?case by simp
next
  case (Cons hop hops)
  obtain r u where hop: "hop = (r, u)" by (cases hop)
  have r: "statusCode r < 400" "safeGetHeader E r ''location'' = Some u"
    using Cons.prems hop by simp_all
  have rest: "\<forall>(r, u) \<in> set hops. statusCode r < 400 \<and> safeGetHeader E r ''location'' = Some u"
    using Cons.prems by simp
  have "snd (doDownload E url destination redirectCount options n
                (map (\<lambda>(r, u). Response r) (hop # hops) @ rest)) =
        NetRequest n (requestOpts (parseUrl E url))
          # snd (doDownload E u destination redirectCount options (Suc n)
                   (map (\<lambda>(r, u). Response r) hops @ rest))"
    using doDownload_redirect_events [OF r assms(1)] by (simp add: hop)
  also have "snd (doDownload E u destination redirectCount options (Suc n)
                   (map (\<lambda>(r, u). Response r) hops @ rest)) =
         map (\<lambda>(i, u). NetRequest i (requestOpts (parseUrl E u)))
             (zip [Suc n ..< Suc n + length hops] (u # map snd hops))
         @ snd (doDownload E (last (u # map snd hops)) destination redirectCount options
                  (Suc n + length hops) rest)"
    by (rule Cons.IH [OF rest])
  finally show ?case by (simp add: hop upt_conv_Cons del: upt_Suc)
qed



text \<open>
  C10. Every request of a download is built from the protocol, hostname and path of the
  parsed URL of its hop (the URL given, or the \<open>location\<close> of a response) and the single
  header \<open>User-Agent\<close>; method, host and port are left out, so a port in the URL is
  dropped. The first request is the one for the URL given. Along a chain of followed
  redirects the effects are exactly one request per hop, numbered in order and each built
  from the URL of its own hop (the URL given, then the \<open>location\<close> of the response
  before), followed by the effects of the call for the last \<open>location\<close>, which begin
  with the request for it.
\<close>

theorem download_request_descriptor:
  "hd (snd (doDownload E url destination redirectCount options n replies)) =
     NetRequest n (requestOpts (parseUrl E url))
   \<and> (\<forall>i d. NetRequest i d \<in> set (snd (doDownload E url destination redirectCount options n replies))
        \<longrightarrow> request_options.headers d = Val [(''User-Agent'', ''electron-builder'')]
            \<and> port d = Undefined \<and> host d = Undefined \<and> method d = Undefined
            \<and> (\<exists>u. (u = url \<or> (\<exists>r. Response r \<in> set replies
                                      \<and> safeGetHeader E r ''location'' = Some u))
                  \<and> protocol d = url_protocol (parseUrl E u)
                  \<and> hostname d = url_hostname (parseUrl E u)
                  \<and> path d = url_path (parseUrl E u)))
   \<and> (redirectCount < maxRedirects E
        \<and> (\<forall>(r, u) \<in> set hops. statusCode r < 400 \<and> safeGetHeader E r ''location'' = Some u)
        \<longrightarrow>
        snd (doDownload E url destination redirectCount options n
               (map (\<lambda>(r, u). Response r) hops @ rest)) =
          map (\<lambda>(i, u). NetRequest i (requestOpts (parseUrl E u)))
              (zip [n ..< n + length hops] (url # map snd hops))
          @ snd (doDownload E (last (url # map snd hops)) destination redirectCount options
                   (n + length hops) rest)
        \<and> hd (snd (doDownload E (last (url # map snd hops)) destination redirectCount options
                   (n + length hops) rest)) =
            NetRequest (n + length hops) (requestOpts (parseUrl E (last (url # map snd hops)))))"
proof (intro conjI allI impI)
  show "hd (snd (doDownload E url destination redirectCount options n replies)) =
     NetRequest n (requestOpts (parseUrl E url))"
    by (rule doDownload_first)
next
  fix i d
  assume "NetRequest i d \<in> set (snd (doDownload E url destination redirectCount options n replies))"
  from doDownload_requests [OF this] obtain u where
    u: "u = url \<or> (\<exists>r. Response r \<in> set replies \<and> safeGetHeader E r ''location'' = Some u)"
    and d: "d = requestOpts (parseUrl E u)"
    by blast
  show "request_options.headers d = Val [(''User-Agent'', ''electron-builder'')]"
    and "port d = Undefined" and "host d = Undefined" and "method d = Undefined"
    by (simp_all add: d requestOpts_def)
  have "protocol d = url_protocol (parseUrl E u)" "hostname d = url_hostname (parseUrl E u)"
    "path d = url_path (parseUrl E u)"
    by (simp_all add: d requestOpts_def)
  with u show "\<exists>u. (u = url \<or> (\<exists>r. Response r \<in> set replies
                                      \<and> safeGetHeader E r ''location'' = Some u))
                  \<and> protocol d = url_protocol (parseUrl E u)
                  \<and> hostname d = url_hostname (parseUrl E u)
                  \<and> path d = url_path (parseUrl E u)"
    by blast
next
  assume "redirectCount < maxRedirects E
        \<and> (\<forall>(r, u) \<in> set hops. statusCode r < 400 \<and> safeGetHeader E r ''location'' = Some u)"
  then show "snd (doDownload E url destination redirectCount options n
               (map (\<lambda>(r, u). Response r) hops @ rest)) =
          map (\<lambda>(i, u). NetRequest i (requestOpts (parseUrl E u)))
              (zip [n ..< n + length hops] (url # map snd hops))
          @ snd (doDownload E (last (url # map snd hops)) destination redirectCount options
                   (n + length hops) rest)"
    by (intro doDownload_chain) simp_all
next
  show "hd (snd (doDownload E (last (url # map snd hops)) destination redirectCount options
                   (n + length hops) rest)) =
            NetRequest (n + length hops) (requestOpts (parseUrl E (last (url # map snd hops))))"
    by (rule doDownload_first)
qed

text \<open>
  C10 at a URL with the port 8443 that is redirected twice: three requests, one for each
  hop's URL, and the first has no port.
\<close>

theorem download_request_descriptor_witness:
  "maxRedirects example_env > 0
   \<and> statusCode (redirect_to ''/next'') < 400
   \<and> safeGetHeader example_env (redirect_to ''/next'') ''location'' = Some ''/next''
   \<and> statusCode (redirect_to ''/final'') < 400
   \<and> safeGetHeader example_env (redirect_to ''/final'') ''location'' = Some ''/final''
   \<and> snd (doDownload example_env ''https://example.org:8443/a/latest.yml''
             ''/tmp/latest.yml'' 0 \<lparr> skipDirCreation = Undefined \<rparr> 0
             [Response (redirect_to ''/next''), Response (redirect_to ''/final''),
              Response (ok_text ''BYTES'')]) =
       [NetRequest 0 (requestOpts (example_parseUrl ''https://example.org:8443/a/latest.yml'')),
        NetRequest 1 (requestOpts (example_parseUrl ''/next'')),
        NetRequest 2 (requestOpts (example_parseUrl ''/final'')),
        Pipe ''/tmp/latest.yml'' (ok_text ''BYTES'')]
   \<and> path (requestOpts (example_parseUrl ''/final'')) = Val ''/final''
   \<and> url_port (example_parseUrl ''https://example.org:8443/a/latest.yml'') = Val ''8443''
   \<and> port (requestOpts (example_parseUrl ''https://example.org:8443/a/latest.yml'')) = Undefined
   \<and> request_options.headers
         (requestOpts (example_parseUrl ''https://example.org:8443/a/latest.yml'')) =
       Val [(''User-Agent'', ''electron-builder'')]"
proof -
  let ?U = "''https://example.org:8443/a/latest.yml''"
  let ?hops = "[(redirect_to ''/next'', ''/next''), (redirect_to ''/final'', ''/final'')]"
  let ?rest = "[Response (ok_text ''BYTES'')]"
  let ?opts = "\<lparr> skipDirCreation = Undefined \<rparr>"
  let ?d = "requestOpts (example_parseUrl ?U)"
  have E: "parseUrl example_env = example_parseUrl" "safeGetHeader example_env = lastValue"
    "maxRedirects example_env = 5" "configurePipes example_env = (\<lambda>options response destination. None)"
    by (simp_all add: example_env_def)
  have bound: "0 < maxRedirects example_env" by (simp add: E)
  have hops: "\<forall>(r, u) \<in> set ?hops.
                statusCode r < 400 \<and> safeGetHeader example_env r ''location'' = Some u"
    by (simp add: E redirect_to_simps)
  note descr = download_request_descriptor [where E = example_env and url = ?U
         and destination = "''/tmp/latest.yml''" and redirectCount = 0
         and options = ?opts and n = 0 and hops = ?hops and rest = ?rest
         and replies = "map (\<lambda>(r, u). Response r) ?hops @ ?rest"]
  from descr bound hops
  have chain: "snd (doDownload example_env ?U ''/tmp/latest.yml'' 0 ?opts 0
               (map (\<lambda>(r, u). Response r) ?hops @ ?rest)) =
          map (\<lambda>(i, u). NetRequest i (requestOpts (parseUrl example_env u)))
              (zip [0 ..< 0 + length ?hops] (?U # map snd ?hops))
          @ snd (doDownload example_env (last (?U # map snd ?hops)) ''/tmp/latest.yml'' 0 ?opts
                   (0 + length ?hops) ?rest)"
    by blast
  have tail: "snd (doDownload example_env ''/final'' ''/tmp/latest.yml'' 0 ?opts 2 ?rest) =
              [NetRequest 2 (requestOpts (example_parseUrl ''/final'')),
               Pipe ''/tmp/latest.yml'' (ok_text ''BYTES'')]"
    by (simp add: E ok_text_simps)
  have run: "snd (doDownload example_env ?U ''/tmp/latest.yml'' 0 ?opts 0
             [Response (redirect_to ''/next''), Response (redirect_to ''/final''),
              Response (ok_text ''BYTES'')]) =
       [NetRequest 0 ?d, NetRequest 1 (requestOpts (example_parseUrl ''/next'')),
        NetRequest 2 (requestOpts (example_parseUrl ''/final'')),
        Pipe ''/tmp/latest.yml'' (ok_text ''BYTES'')]"
    using chain tail by (simp add: E upt_rec eval_nat_numeral del: doDownload.simps)
  then have mem: "NetRequest 0 ?d \<in> set (snd (doDownload example_env ?U ''/tmp/latest.yml'' 0
             ?opts 0 (map (\<lambda>(r, u). Response r) ?hops @ ?rest)))"
    by simp
  from descr mem have "request_options.headers ?d = Val [(''User-Agent'', ''electron-builder'')]"
    "port ?d = Undefined"
    by blast+
  moreover have "url_port (example_parseUrl ?U) = Val ''8443''"
    "path (requestOpts (example_parseUrl ''/final'')) = Val ''/final''"
    by (simp_all add: example_parseUrl_def requestOpts_def)
  moreover have "statusCode (redirect_to ''/next'') < 400"
    "safeGetHeader example_env (redirect_to ''/next'') ''location'' = Some ''/next''"
    "statusCode (redirect_to ''/final'') < 400"
    "safeGetHeader example_env (redirect_to ''/final'') ''location'' = Some ''/final''"
    using hops by simp_all
  ultimately show ?thesis using bound run by blast
qed

text \<open>
  C1. The redirect count of a download is never incremented: \<open>redirectCount++\<close> passes
  the old value to the recursive call. With a redirect bound of at least 1 the executor
  follows a chain of any length \<open>k\<close>, longer than the bound as well, and resolves with the
  destination instead of rejecting with the error for too many redirects.
\<close>

theorem download_follows_over_long_chain:
  "fst (download (example_env\<lparr> maxRedirects := Suc m \<rparr>) url destination Undefined
         (replicate k (Response (redirect_to u)) @ [Response (ok_text b)])) =
   Resolved (JStr destination)"
proof -
  let ?E = "example_env\<lparr> maxRedirects := Suc m \<rparr>"
  have E: "safeGetHeader ?E = lastValue" "maxRedirects ?E = Suc m"
          "configurePipes ?E = (\<lambda>options response destination. None)"
          "ensureDir ?E = (\<lambda>dir. None)"
    by (simp_all add: example_env_def)
  have "fst (doDownload ?E url destination 0 opts 0
               (map Response (replicate k (redirect_to u)) @ Response (ok_text b) # [])) =
        fst (doDownload ?E (if replicate k (redirect_to u) = [] then url else u) destination 0
               opts (0 + length (replicate k (redirect_to u))) (Response (ok_text b) # []))"
    for opts
    by (rule doDownload_follows) (simp_all add: E redirect_to_simps)
  then have "fst (doDownload ?E url destination 0 opts 0
               (replicate k (Response (redirect_to u)) @ [Response (ok_text b)])) = Called None"
    for opts
    by (simp add: E ok_text_simps)
  then show ?thesis
    by (simp add: download_def E case_prod_beta)
qed

section \<open>Properties of doApiRequest\<close>

lemma setAuthorization_ok:
  assumes "token = None \<or> request_options.headers (options_at s options) = Val h"
  shows "setAuthorization options token s =
           Inr (case token of None \<Rightarrow> s
                | Some t \<Rightarrow> s\<lparr> headers_at := (headers_at s)
                      (h := AList.update ''authorization'' (authorization t) (headers_at s h)) \<rparr>)"
  using assms by (auto simp: setAuthorization_def split: option.splits)

lemma prepare_ok:
  assumes "token = None \<or> request_options.headers (options_at s options) = Val h"
  obtains s1 where "prepare options token s = Inr s1"
    and "next_request s1 = next_request s" and "next_options s1 = next_options s"
    and "options_at s1 = (options_at s)(options := (options_at s options)\<lparr> protocol := Val ''https:'' \<rparr>)"
proof -
  from setAuthorization_ok [OF assms] show ?thesis
    by (intro that [of "forceHttps options (case token of None \<Rightarrow> s
                | Some t \<Rightarrow> s\<lparr> headers_at := (headers_at s)
                      (h := AList.update ''authorization'' (authorization t) (headers_at s h)) \<rparr>)"])
       (auto simp: prepare_def forceHttps_def split: option.splits)
qed

lemma prepare_explicit:
  assumes "token = None \<or> request_options.headers (options_at s options) = Val h"
  obtains s1 where "prepare options token s = Inr s1"
    and "headers_at s1 =
           (case token of None \<Rightarrow> headers_at s
            | Some t \<Rightarrow> (headers_at s)
                (h := AList.update ''authorization'' (authorization t) (headers_at s h)))"
proof -
  let ?sa = "case token of None \<Rightarrow> s
                | Some t \<Rightarrow> s\<lparr> headers_at := (headers_at s)
                      (h := AList.update ''authorization'' (authorization t) (headers_at s h)) \<rparr>"
  have "prepare options token s = Inr (forceHttps options ?sa)"
    using setAuthorization_ok [OF assms] by (simp add: prepare_def)
  moreover have "headers_at (forceHttps options ?sa) =
           (case token of None \<Rightarrow> headers_at s
            | Some t \<Rightarrow> (headers_at s)
                (h := AList.update ''authorization'' (authorization t) (headers_at s h)))"
    by (cases token) (simp_all add: forceHttps_def)
  ultimately show ?thesis by (rule that)
qed

lemma setAuthorization_Inr:
  assumes "setAuthorization options token s = Inr sa"
  shows "options_at sa = options_at s \<and> next_options sa = next_options s
         \<and> next_request sa = next_request s"
proof (cases token)
  case None
  with assms have "sa = s" by (simp add: setAuthorization_def)
  then show ?thesis by simp
next
  case (Some t)
  show ?thesis
  proof (cases "request_options.headers (options_at s options)")
    case (Val h)
    with assms Some
    have "sa = s\<lparr> headers_at := (headers_at s)
                 (h := AList.update ''authorization'' (authorization t) (headers_at s h)) \<rparr>"
      by (simp add: setAuthorization_def)
    then show ?thesis by simp
  next
    case Undefined
    with assms Some show ?thesis by (simp add: setAuthorization_def)
  next
    case Null
    with assms Some show ?thesis by (simp add: setAuthorization_def)
  qed
qed

lemma prepare_Inr:
  assumes "prepare options token s = Inr s1"
  shows "options_at s1 options = (options_at s options)\<lparr> protocol := Val ''https:'' \<rparr>"
    and "\<And>r. r \<noteq> options \<Longrightarrow> options_at s1 r = options_at s r"
    and "next_options s1 = next_options s"
    and "next_request s1 = next_request s"
proof -
  from assms obtain sa where sa: "setAuthorization options token s = Inr sa"
    and s1: "s1 = forceHttps options sa"
    by (cases "setAuthorization options token s") (simp_all add: prepare_def)
  from setAuthorization_Inr [OF sa]
  have "options_at sa = options_at s" "next_options sa = next_options s"
    "next_request sa = next_request s"
    by simp_all
  then show "options_at s1 options = (options_at s options)\<lparr> protocol := Val ''https:'' \<rparr>"
    and "\<And>r. r \<noteq> options \<Longrightarrow> options_at s1 r = options_at s r"
    and "next_options s1 = next_options s"
    and "next_request s1 = next_request s"
    by (simp_all add: s1 forceHttps_def)
qed

lemma prepare_next_request:
  "prepare options token s = Inr s1 \<Longrightarrow> next_request s1 = next_request s"
  by (auto simp: prepare_def setAuthorization_def forceHttps_def
           split: sum.splits option.splits maybe.splits)

lemma issue_first:
  assumes "prepare options token s = Inr s1" and "NetRequest i d \<in> set (issue s1 options)"
  shows "i = next_request s \<and> protocol d = Val ''https:''
         \<and> method d = method (options_at s options)
         \<and> host d = host (options_at s options)
         \<and> hostname d = hostname (options_at s options)
         \<and> port d = port (options_at s options) \<and> path d = path (options_at s options)"
proof -
  from assms(2) have "i = next_request s1" "d = snapshot s1 options"
    by (simp_all add: issue_def)
  then show ?thesis
    using prepare_Inr(1,4) [OF assms(1)] by (simp add: snapshot_def Let_def)
qed

lemma doApiRequest_redirect_eq:
  assumes "prepare options token s = Inr s1" and "statusCode response \<noteq> 204"
      and "safeGetHeader E response ''location'' = Some u" and "\<not> redirectCount > 10"
      and "s2 = (sent s1)\<lparr> options_at := (options_at s1)
                   (next_options s1 := assign (options_at s1 options) (parseUrl E u)),
                 next_options := Suc (next_options s1) \<rparr>"
      and "doApiRequest E (next_options s1) token 0 rest s2 = (result, evs, s3)"
  shows "doApiRequest E options token redirectCount (Response response # rest) s =
           (settle (if statusCode response = 404 then
                      Rejected (HttpError response
                        (Some (JStr (not_found_message (options_at s1 options)))))
                    else Pending) (caught result),
            issue s1 options @ evs, s3)"
proof -
  have "new_options (assign (options_at s1 options) (parseUrl E u)) (sent s1) =
          (next_options s1, s2)"
    by (simp add: new_options_def sent_def assms(5))
  with assms(1-4,6) show ?thesis by (simp add: Let_def)
qed

lemma doApiRequest_terminal_eq:
  assumes "prepare options token s = Inr s1"
      and "replies = [] \<or> (\<exists>e rest. replies = RequestError e # rest)
           \<or> (\<exists>rest. replies = SocketTimeout # rest)
           \<or> (\<exists>response rest. replies = Response response # rest \<and>
                 (statusCode response = 204 \<or> safeGetHeader E response ''location'' = None
                    \<or> redirectCount > 10))"
  shows "snd (snd (doApiRequest E options token redirectCount replies s)) = sent s1
         \<and> (\<exists>tl. fst (snd (doApiRequest E options token redirectCount replies s)) =
                    issue s1 options @ tl \<and> (\<forall>i d. NetRequest i d \<notin> set tl))"
proof -
  consider "replies = []" | e rest where "replies = RequestError e # rest"
    | rest where "replies = SocketTimeout # rest"
    | response rest where "replies = Response response # rest"
        "statusCode response = 204 \<or> safeGetHeader E response ''location'' = None
           \<or> redirectCount > 10"
    using assms(2) by blast
  then show ?thesis
  proof cases
    case 1
    with assms(1) show ?thesis by simp
  next
    case 2
    with assms(1) show ?thesis by simp
  next
    case 3
    with assms(1) show ?thesis by simp
  next
    case 4
    show ?thesis
    proof (cases "statusCode response = 204")
      case True
      with 4 assms(1) show ?thesis by simp
    next
      case n204: False
      show ?thesis
      proof (cases "safeGetHeader E response ''location''")
        case None
        with 4 assms(1) n204 show ?thesis by (simp add: Let_def)
      next
        case (Some u)
        with 4 n204 have "redirectCount > 10" by simp
        with 4 assms(1) n204 Some show ?thesis by (simp add: Let_def)
      qed
    qed
  qed
qed

lemma doApiRequest_thrown:
  assumes "prepare options token s = Inl e"
  shows "doApiRequest E options token redirectCount replies s = (Thrown e, [], s)"
proof (cases replies)
  case Nil
  with assms show ?thesis by simp
next
  case (Cons reply rest)
  with assms show ?thesis by (cases reply) simp_all
qed

lemma replies_cases:
  obtains (terminal)
      "replies = [] \<or> (\<exists>e rest. replies = RequestError e # rest)
           \<or> (\<exists>rest. replies = SocketTimeout # rest)
           \<or> (\<exists>response rest. replies = Response response # rest \<and>
                 (statusCode response = 204 \<or> safeGetHeader E response ''location'' = None
                    \<or> redirectCount > 10))"
    | (redirect) response rest u where "replies = Response response # rest"
      "statusCode response \<noteq> 204" "safeGetHeader E response ''location'' = Some u"
      "\<not> redirectCount > (10::nat)"
proof (cases replies)
  case Nil
  then show ?thesis using terminal by blast
next
  case (Cons reply rest)
  show ?thesis
  proof (cases reply)
    case (Response response)
    show ?thesis
    proof (cases "statusCode response = 204 \<or> safeGetHeader E response ''location'' = None
                    \<or> redirectCount > 10")
      case True
      with Cons Response show ?thesis using terminal by blast
    next
      case False
      then obtain u where "safeGetHeader E response ''location'' = Some u" by auto
      with False Cons Response show ?thesis using redirect by blast
    qed
  next
    case (RequestError e)
    with Cons show ?thesis using terminal by blast
  next
    case SocketTimeout
    with Cons show ?thesis using terminal by blast
  qed
qed

lemma processor_calls_append [simp]:
  "processor_calls (xs @ ys) = processor_calls xs @ processor_calls ys"
  by (induction xs rule: processor_calls.induct) simp_all

lemma requests_append [simp]:
  "requests (xs @ ys) = requests xs @ requests ys"
  by (induction xs rule: requests.induct) simp_all

lemma doApiRequest_ids:
  "doApiRequest E options token redirectCount replies s = (result, evs, s') \<Longrightarrow>
   next_request s \<le> next_request s'
   \<and> requests evs = [next_request s ..< next_request s']
   \<and> processor_calls evs = [next_request s ..< next_request s']"
proof (induction replies arbitrary: options redirectCount s result evs s')
  case Nil
  then show ?case
    by (auto simp: issue_def sent_def split: sum.splits dest: prepare_next_request)
next
  case (Cons reply rest)
  show ?case
  proof (cases reply)
    case (Response response)
    show ?thesis
    proof (cases "prepare options token s")
      case (Inl e)
      with Cons.prems Response show ?thesis by simp
    next
      case (Inr s1)
      note n1 = prepare_next_request [OF Inr]
      show ?thesis
      proof (cases "statusCode response = 204 \<or> safeGetHeader E response ''location'' = None
                    \<or> redirectCount > 10")
        case True
        with Cons.prems Response Inr n1 show ?thesis
          by (auto simp: issue_def sent_def Let_def split: option.splits if_splits)
      next
        case False
        then obtain u where u: "safeGetHeader E response ''location'' = Some u"
          and nf: "statusCode response \<noteq> 204" "\<not> redirectCount > 10" by auto
        obtain options' s2 where s2:
          "new_options (assign (options_at s1 options) (parseUrl E u)) (sent s1) = (options', s2)"
          by (cases "new_options (assign (options_at s1 options) (parseUrl E u)) (sent s1)")
        obtain r2 e2 s3 where rec: "doApiRequest E options' token 0 rest s2 = (r2, e2, s3)"
          by (cases "doApiRequest E options' token 0 rest s2")
        have n2: "next_request s2 = Suc (next_request s)"
          using s2 n1 by (auto simp: new_options_def sent_def)
        from Cons.IH [OF rec] n2
        have ih: "Suc (next_request s) \<le> next_request s3"
          "requests e2 = [Suc (next_request s) ..< next_request s3]"
          "processor_calls e2 = [Suc (next_request s) ..< next_request s3]"
          by simp_all
        have "evs = issue s1 options @ e2" "s' = s3"
          using Cons.prems Response Inr u nf s2 rec by (auto simp: Let_def)
        with ih n1 show ?thesis
          by (auto simp: issue_def upt_conv_Cons)
      qed
    qed
  next
    case (RequestError e)
    with Cons.prems show ?thesis
      by (auto simp: issue_def sent_def split: sum.splits dest: prepare_next_request)
  next
    case SocketTimeout
    with Cons.prems show ?thesis
      by (auto simp: issue_def sent_def split: sum.splits dest: prepare_next_request)
  qed
qed

lemma doApiRequest_targets:
  "NetRequest i d \<in> set (fst (snd (doApiRequest E options token redirectCount replies s))) \<Longrightarrow>
   protocol d = Val ''https:'' \<and> method d = method (options_at s options) \<and>
   (i = next_request s \<and> host d = host (options_at s options)
      \<and> hostname d = hostname (options_at s options)
      \<and> port d = port (options_at s options) \<and> path d = path (options_at s options)
    \<or> next_request s < i \<and>
      (\<exists>r u. Response r \<in> set replies \<and> safeGetHeader E r ''location'' = Some u
         \<and> host d = url_host (parseUrl E u) \<and> hostname d = url_hostname (parseUrl E u)
         \<and> port d = url_port (parseUrl E u) \<and> path d = url_path (parseUrl E u)))"
proof (induction replies arbitrary: options redirectCount s)
  case Nil
  show ?case
  proof (cases "prepare options token s")
    case (Inl e)
    with Nil show ?thesis by simp
  next
    case (Inr s1)
    with Nil have "NetRequest i d \<in> set (issue s1 options)" by simp
    from issue_first [OF Inr this] show ?thesis by simp
  qed
next
  case (Cons reply rest)
  show ?case
  proof (cases "prepare options token s")
    case (Inl e)
    with Cons.prems show ?thesis by (simp add: doApiRequest_thrown)
  next
    case (Inr s1)
    show ?thesis
    proof (cases rule: replies_cases [of "reply # rest" E redirectCount])
      case terminal
      from doApiRequest_terminal_eq [OF Inr terminal] Cons.prems
      have "NetRequest i d \<in> set (issue s1 options)" by auto
      from issue_first [OF Inr this] show ?thesis by simp
    next
      case (redirect response rest' u)
      then have reply: "reply = Response response" and rest: "rest' = rest" by simp_all
      define s2 where "s2 = (sent s1)\<lparr> options_at := (options_at s1)
                   (next_options s1 := assign (options_at s1 options) (parseUrl E u)),
                 next_options := Suc (next_options s1) \<rparr>"
      obtain result evs s3 where rec:
        "doApiRequest E (next_options s1) token 0 rest s2 = (result, evs, s3)"
        by (cases "doApiRequest E (next_options s1) token 0 rest s2")
      have eq: "fst (snd (doApiRequest E options token redirectCount (reply # rest) s)) =
                issue s1 options @ evs"
        using doApiRequest_redirect_eq [OF Inr redirect(2-4) s2_def rec] reply by simp
      show ?thesis
      proof (cases "NetRequest i d \<in> set (issue s1 options)")
        case True
        from issue_first [OF Inr this] show ?thesis by simp
      next
        case False
        with Cons.prems eq
        have "NetRequest i d \<in> set (fst (snd (doApiRequest E (next_options s1) token 0 rest s2)))"
          by (simp add: rec)
        note ih = Cons.IH [OF this]
        have ob: "options_at s2 (next_options s1) = assign (options_at s1 options) (parseUrl E u)"
          by (simp add: s2_def sent_def)
        have n2: "next_request s2 = Suc (next_request s)"
          using prepare_Inr(4) [OF Inr] by (simp add: s2_def sent_def)
        have m: "method (options_at s2 (next_options s1)) = method (options_at s options)"
          using prepare_Inr(1) [OF Inr] by (simp add: ob assign_def)
        have fields: "host (options_at s2 (next_options s1)) = url_host (parseUrl E u)"
          "hostname (options_at s2 (next_options s1)) = url_hostname (parseUrl E u)"
          "port (options_at s2 (next_options s1)) = url_port (parseUrl E u)"
          "path (options_at s2 (next_options s1)) = url_path (parseUrl E u)"
          by (simp_all add: ob assign_def)
        from ih have p: "protocol d = Val ''https:''" "method d = method (options_at s options)"
          using m by simp_all
        from ih consider
            "i = next_request s2" "host d = url_host (parseUrl E u)"
            "hostname d = url_hostname (parseUrl E u)" "port d = url_port (parseUrl E u)"
            "path d = url_path (parseUrl E u)"
          | r u' where "next_request s2 < i" "Response r \<in> set rest"
            "safeGetHeader E r ''location'' = Some u'"
            "host d = url_host (parseUrl E u')" "hostname d = url_hostname (parseUrl E u')"
            "port d = url_port (parseUrl E u')" "path d = url_path (parseUrl E u')"
          unfolding fields by blast
        then show ?thesis
        proof cases
          case 1
          have "Response response \<in> set (reply # rest)" using reply by simp
          with 1 n2 redirect(3) p show ?thesis by (intro conjI disjI2 exI [of _ response] exI [of _ u]) simp_all
        next
          case 2
          then have "Response r \<in> set (reply # rest)" by simp
          with 2 n2 p show ?thesis by (intro conjI disjI2 exI [of _ r] exI [of _ u']) simp_all
        qed
      qed
    qed
  qed
qed

lemma doApiRequest_frame:
  assumes "options < next_options s"
      and "token = None \<or> request_options.headers (options_at s options) = Val h"
  shows "next_options s \<le> next_options (snd (snd (doApiRequest E options token redirectCount replies s)))
       \<and> options_at (snd (snd (doApiRequest E options token redirectCount replies s))) options =
           (options_at s options)\<lparr> protocol := Val ''https:'' \<rparr>
       \<and> (\<forall>r < next_options s. r \<noteq> options \<longrightarrow>
            options_at (snd (snd (doApiRequest E options token redirectCount replies s))) r =
            options_at s r)
       \<and> headers_at (snd (snd (doApiRequest E options token redirectCount replies s))) =
           (case token of None \<Rightarrow> headers_at s
            | Some t \<Rightarrow> (headers_at s)
                (h := AList.update ''authorization'' (authorization t) (headers_at s h)))"
  using assms
proof (induction replies arbitrary: options redirectCount s)
  case Nil
  from Nil(2) obtain s1 where s1: "prepare options token s = Inr s1"
    and h1: "headers_at s1 =
           (case token of None \<Rightarrow> headers_at s
            | Some t \<Rightarrow> (headers_at s)
                (h := AList.update ''authorization'' (authorization t) (headers_at s h)))"
    by (rule prepare_explicit)
  from prepare_Inr [OF s1] h1 s1 show ?case by (simp add: sent_def)
next
  case (Cons reply rest)
  from Cons.prems(2) obtain s1 where s1: "prepare options token s = Inr s1"
    and h1: "headers_at s1 =
           (case token of None \<Rightarrow> headers_at s
            | Some t \<Rightarrow> (headers_at s)
                (h := AList.update ''authorization'' (authorization t) (headers_at s h)))"
    by (rule prepare_explicit)
  note p1 = prepare_Inr [OF s1]
  show ?case
  proof (cases rule: replies_cases [of "reply # rest" E redirectCount])
    case terminal
    from doApiRequest_terminal_eq [OF s1 terminal]
    have "snd (snd (doApiRequest E options token redirectCount (reply # rest) s)) = sent s1"
      by simp
    with p1 h1 show ?thesis by (simp add: sent_def)
  next
    case (redirect response rest' u)
    then have reply: "reply = Response response" and rest: "rest' = rest" by simp_all
    define s2 where "s2 = (sent s1)\<lparr> options_at := (options_at s1)
                   (next_options s1 := assign (options_at s1 options) (parseUrl E u)),
                 next_options := Suc (next_options s1) \<rparr>"
    obtain result evs s3 where rec:
      "doApiRequest E (next_options s1) token 0 rest s2 = (result, evs, s3)"
      by (cases "doApiRequest E (next_options s1) token 0 rest s2")
    have eq: "snd (snd (doApiRequest E options token redirectCount (reply # rest) s)) = s3"
      using doApiRequest_redirect_eq [OF s1 redirect(2-4) s2_def rec] reply by simp
    have fresh: "next_options s1 < next_options s2"
      by (simp add: s2_def sent_def)
    have hdr: "token = None \<or> request_options.headers (options_at s2 (next_options s1)) = Val h"
      using Cons.prems(2) p1(1) by (auto simp: s2_def sent_def assign_def)
    from Cons.IH [OF fresh hdr, of 0] rec
    have ih: "next_options s2 \<le> next_options s3"
      "\<forall>r < next_options s2. r \<noteq> next_options s1 \<longrightarrow> options_at s3 r = options_at s2 r"
      "headers_at s3 =
           (case token of None \<Rightarrow> headers_at s2
            | Some t \<Rightarrow> (headers_at s2)
                (h := AList.update ''authorization'' (authorization t) (headers_at s2 h)))"
      by simp_all
    have n2: "next_options s2 = Suc (next_options s)" "headers_at s2 = headers_at s1"
      using p1(3) by (simp_all add: s2_def sent_def)
    have keep: "options_at s2 r = options_at s1 r" if "r < next_options s" for r
      using that p1(3) by (simp add: s2_def sent_def)
    have a: "next_options s \<le> next_options s3" using ih(1) n2 by simp
    have b: "options_at s3 options = (options_at s options)\<lparr> protocol := Val ''https:'' \<rparr>"
      using ih(2) Cons.prems(1) keep [of options] p1(1,3) n2 by simp
    have c: "\<forall>r < next_options s. r \<noteq> options \<longrightarrow> options_at s3 r = options_at s r"
      using ih(2) keep p1(2,3) n2 by simp
    have d: "headers_at s3 =
           (case token of None \<Rightarrow> headers_at s
            | Some t \<Rightarrow> (headers_at s)
                (h := AList.update ''authorization'' (authorization t) (headers_at s h)))"
      unfolding ih(3) n2(2) h1 by (cases token) simp_all
    from a b c d show ?thesis unfolding eq by blast
  qed
qed

lemma doApiRequest_new_descriptor:
  assumes "token = None \<or> request_options.headers (options_at s options) = Val h"
      and "statusCode response \<noteq> 204"
      and "safeGetHeader E response ''location'' = Some u" and "redirectCount \<le> 10"
  shows "options_at (snd (snd (doApiRequest E options token redirectCount
                                  (Response response # rest) s))) (next_options s) =
           (options_at s options)\<lparr> protocol := Val ''https:'',
              host := url_host (parseUrl E u), port := url_port (parseUrl E u),
              hostname := url_hostname (parseUrl E u), path := url_path (parseUrl E u) \<rparr>"
proof -
  from assms(1) obtain s1 where s1: "prepare options token s = Inr s1"
    by (rule prepare_ok)
  note p1 = prepare_Inr [OF s1]
  define s2 where "s2 = (sent s1)\<lparr> options_at := (options_at s1)
                   (next_options s1 := assign (options_at s1 options) (parseUrl E u)),
                 next_options := Suc (next_options s1) \<rparr>"
  obtain result evs s3 where rec:
    "doApiRequest E (next_options s1) token 0 rest s2 = (result, evs, s3)"
    by (cases "doApiRequest E (next_options s1) token 0 rest s2")
  have nr: "\<not> redirectCount > 10" using assms(4) by simp
  have eq: "snd (snd (doApiRequest E options token redirectCount (Response response # rest) s)) = s3"
    using doApiRequest_redirect_eq [OF s1 assms(2,3) nr s2_def rec] by simp
  have fresh: "next_options s1 < next_options s2"
    by (simp add: s2_def sent_def)
  have hdr: "token = None \<or> request_options.headers (options_at s2 (next_options s1)) = Val h"
    using assms(1) p1(1) by (auto simp: s2_def sent_def assign_def)
  from doApiRequest_frame [OF fresh hdr, of E 0 rest] rec
  have "options_at s3 (next_options s1) =
          (options_at s2 (next_options s1))\<lparr> protocol := Val ''https:'' \<rparr>"
    by simp
  also have "options_at s2 (next_options s1) = assign (options_at s1 options) (parseUrl E u)"
    by (simp add: s2_def sent_def)
  finally show ?thesis
    unfolding eq using p1(1,3) by (simp add: assign_def)
qed

lemma doApiRequest_follows:
  assumes "token = None \<or> request_options.headers (options_at s options) = Val h"
      and "\<forall>r \<in> set rs. statusCode r \<noteq> 204 \<and> statusCode r \<noteq> 404
             \<and> safeGetHeader E r ''location'' = Some u"
      and "redirectCount \<le> 10"
      and "statusCode final = 200" and "safeGetHeader E final ''location'' = None"
      and "isJson final = Inr True" and "JSON_parse E (body final) = Inr v"
      and "body final \<noteq> []"
      and "path (options_at s options) = Val p" and "url_path (parseUrl E u) = Val p'"
  shows "fst (doApiRequest E options token redirectCount (map Response rs @ [Response final]) s)
         = Resolved v"
  using assms(1,2,3,9)
proof (induction rs arbitrary: options redirectCount s p)
  case Nil
  from Nil(1) obtain s1 where s1: "prepare options token s = Inr s1"
    by (rule prepare_ok)
  have "isYaml (options_at s1 options) = Inr (str_includes p ''.yml'')"
    using prepare_Inr(1) [OF s1] Nil(4) by (simp add: isYaml_def)
  then have "onEnd E (options_at s1 options) final = Resolved v"
    using assms(4,6,7,8) by (simp add: onEnd_def Let_def)
  then show ?case using s1 assms(4,5) by (simp add: Let_def)
next
  case (Cons r rs)
  from Cons.prems(1) obtain s1 where s1: "prepare options token s = Inr s1"
    by (rule prepare_ok)
  note p1 = prepare_Inr [OF s1]
  define s2 where "s2 = (sent s1)\<lparr> options_at := (options_at s1)
                   (next_options s1 := assign (options_at s1 options) (parseUrl E u)),
                 next_options := Suc (next_options s1) \<rparr>"
  obtain result evs s3 where rec:
    "doApiRequest E (next_options s1) token 0 (map Response rs @ [Response final]) s2 =
       (result, evs, s3)"
    by (cases "doApiRequest E (next_options s1) token 0 (map Response rs @ [Response final]) s2")
  have r: "statusCode r \<noteq> 204" "statusCode r \<noteq> 404" "safeGetHeader E r ''location'' = Some u"
    using Cons.prems(2) by simp_all
  have nr: "\<not> redirectCount > 10" using Cons.prems(3) by simp
  have ob: "options_at s2 (next_options s1) = assign (options_at s1 options) (parseUrl E u)"
    by (simp add: s2_def sent_def)
  have hdr: "token = None \<or> request_options.headers (options_at s2 (next_options s1)) = Val h"
    using Cons.prems(1) p1(1) by (auto simp: ob assign_def)
  have pth: "path (options_at s2 (next_options s1)) = Val p'"
    using assms(10) by (simp add: ob assign_def)
  have "fst (doApiRequest E (next_options s1) token 0 (map Response rs @ [Response final]) s2)
        = Resolved v"
    using Cons.prems(2) by (intro Cons.IH [OF hdr _ _ pth]) simp_all
  with rec have "result = Resolved v" by simp
  with doApiRequest_redirect_eq [OF s1 r(1,3) nr s2_def rec] r(2)
  show ?case by simp
qed

lemma doApiRequest_starts:
  assumes "prepare options token s = Inr s1"
  shows "\<exists>tail. fst (snd (doApiRequest E options token redirectCount replies s)) =
                 issue s1 options @ tail"
proof (cases rule: replies_cases [of replies E redirectCount])
  case terminal
  from doApiRequest_terminal_eq [OF assms terminal] show ?thesis by blast
next
  case (redirect response rest u)
  define s2 where "s2 = (sent s1)\<lparr> options_at := (options_at s1)
                   (next_options s1 := assign (options_at s1 options) (parseUrl E u)),
                 next_options := Suc (next_options s1) \<rparr>"
  obtain result evs s3 where rec:
    "doApiRequest E (next_options s1) token 0 rest s2 = (result, evs, s3)"
    by (cases "doApiRequest E (next_options s1) token 0 rest s2")
  from doApiRequest_redirect_eq [OF assms redirect(2-4) s2_def rec] redirect(1)
  show ?thesis by simp
qed

lemma prepare_headers_at:
  assumes "token = None \<or> request_options.headers (options_at s options) = Val h"
      and "prepare options token s = Inr s1"
  shows "headers_at s1 =
           (case token of None \<Rightarrow> headers_at s
            | Some t \<Rightarrow> (headers_at s)
                (h := AList.update ''authorization'' (authorization t) (headers_at s h)))"
proof -
  from assms(1) obtain s1' where "prepare options token s = Inr s1'"
    and "headers_at s1' =
           (case token of None \<Rightarrow> headers_at s
            | Some t \<Rightarrow> (headers_at s)
                (h := AList.update ''authorization'' (authorization t) (headers_at s h)))"
    by (rule prepare_explicit)
  with assms(2) show ?thesis by simp
qed

lemma snapshot_redirected:
  assumes hdr: "token = None \<or> request_options.headers (options_at s options) = Val h"
      and s1: "prepare options token s = Inr s1"
      and s2: "s2 = (sent s1)\<lparr> options_at := (options_at s1)
                   (next_options s1 := assign (options_at s1 options) (parseUrl E u)),
                 next_options := Suc (next_options s1) \<rparr>"
      and s1': "prepare (next_options s1) token s2 = Inr s1'"
  shows "snapshot s1' (next_options s1) =
           (snapshot s1 options)\<lparr> host := url_host (parseUrl E u),
              port := url_port (parseUrl E u), hostname := url_hostname (parseUrl E u),
              path := url_path (parseUrl E u) \<rparr>"
proof -
  have ob: "options_at s1 options = (options_at s options)\<lparr> protocol := Val ''https:'' \<rparr>"
    by (rule prepare_Inr(1) [OF s1])
  have ob2: "options_at s2 (next_options s1) = assign (options_at s1 options) (parseUrl E u)"
    by (simp add: s2 sent_def)
  have ob': "options_at s1' (next_options s1) =
               (assign (options_at s1 options) (parseUrl E u))\<lparr> protocol := Val ''https:'' \<rparr>"
    using prepare_Inr(1) [OF s1'] ob2 by simp
  have hdr2: "token = None \<or> request_options.headers (options_at s2 (next_options s1)) = Val h"
    using hdr ob by (auto simp: ob2 assign_def)
  have h2: "headers_at s2 = headers_at s1" by (simp add: s2 sent_def)
  have "headers_at s1' = headers_at s1"
    unfolding prepare_headers_at [OF hdr2 s1'] h2 prepare_headers_at [OF hdr s1]
    by (cases token) simp_all
  then show ?thesis
    by (simp add: snapshot_def Let_def ob' ob assign_def)
qed

lemma snapshot_prepared:
  assumes "token = None \<or> request_options.headers (options_at s options) = Val h"
      and "prepare options token s = Inr s1"
  shows "snapshot s1 options =
           \<lparr> method = method (options_at s options), protocol = Val ''https:'',
             host = host (options_at s options), hostname = hostname (options_at s options),
             port = port (options_at s options), path = path (options_at s options),
             headers = map_maybe
               (case token of None \<Rightarrow> headers_at s
                | Some t \<Rightarrow> (headers_at s)
                    (h := AList.update ''authorization'' (authorization t) (headers_at s h)))
               (request_options.headers (options_at s options)) \<rparr>"
  using prepare_Inr(1) [OF assms(2)] prepare_headers_at [OF assms]
  by (simp add: snapshot_def Let_def)

lemma doApiRequest_chain:
  assumes "token = None \<or> request_options.headers (options_at s options) = Val h"
      and "prepare options token s = Inr s1"
      and "\<forall>(r, u) \<in> set hops. statusCode r \<noteq> 204 \<and> safeGetHeader E r ''location'' = Some u"
      and "redirectCount \<le> 10"
  shows "\<exists>tail. fst (snd (doApiRequest E options token redirectCount
                             (map (\<lambda>(r, u). Response r) hops @ rest) s)) =
           concat (map (\<lambda>(i, d). [NetRequest i d, RequestProcessor i])
             (zip [next_request s ..< next_request s + Suc (length hops)]
                (snapshot s1 options
                 # map (\<lambda>(r, u). (snapshot s1 options)\<lparr> host := url_host (parseUrl E u),
                          port := url_port (parseUrl E u),
                          hostname := url_hostname (parseUrl E u),
                          path := url_path (parseUrl E u) \<rparr>) hops)))
           @ tail"
  using assms
proof (induction hops arbitrary: options s s1 redirectCount)
  case Nil
  from doApiRequest_starts [OF Nil(2), of E redirectCount rest]
  obtain tail where "fst (snd (doApiRequest E options token redirectCount rest s)) =
                 issue s1 options @ tail"
    by blast
  then show ?case
    using prepare_Inr(4) [OF Nil(2)] by (simp add: issue_def)
next
  case (Cons hop hops)
  obtain r u where hop: "hop = (r, u)" by (cases hop)
  have r: "statusCode r \<noteq> 204" "safeGetHeader E r ''location'' = Some u"
    using Cons.prems(3) hop by simp_all
  have later: "\<forall>(r, u) \<in> set hops. statusCode r \<noteq> 204 \<and> safeGetHeader E r ''location'' = Some u"
    using Cons.prems(3) by simp
  have nr: "\<not> redirectCount > 10" using Cons.prems(4) by simp
  note p1 = prepare_Inr [OF Cons.prems(2)]
  define s2 where "s2 = (sent s1)\<lparr> options_at := (options_at s1)
                   (next_options s1 := assign (options_at s1 options) (parseUrl E u)),
                 next_options := Suc (next_options s1) \<rparr>"
  have hdr2: "token = None \<or> request_options.headers (options_at s2 (next_options s1)) = Val h"
    using Cons.prems(1) p1(1) by (auto simp: s2_def sent_def assign_def)
  from hdr2 obtain s1' where s1': "prepare (next_options s1) token s2 = Inr s1'"
    by (rule prepare_ok)
  let ?d0 = "snapshot s1 options"
  let ?d1 = "snapshot s1' (next_options s1)"
  have d1: "?d1 = ?d0\<lparr> host := url_host (parseUrl E u),
              port := url_port (parseUrl E u), hostname := url_hostname (parseUrl E u),
              path := url_path (parseUrl E u) \<rparr>"
    by (rule snapshot_redirected [OF Cons.prems(1,2) s2_def s1'])
  have n2: "next_request s2 = Suc (next_request s)"
    using p1(4) by (simp add: s2_def sent_def)
  obtain result evs s3 where rec:
    "doApiRequest E (next_options s1) token 0 (map (\<lambda>(r, u). Response r) hops @ rest) s2 =
       (result, evs, s3)"
    by (cases "doApiRequest E (next_options s1) token 0
                 (map (\<lambda>(r, u). Response r) hops @ rest) s2")
  from Cons.IH [OF hdr2 s1' later, of 0] rec obtain tail where evs:
    "evs = concat (map (\<lambda>(i, d). [NetRequest i d, RequestProcessor i])
             (zip [next_request s2 ..< next_request s2 + Suc (length hops)]
                (?d1 # map (\<lambda>(r, u). ?d1\<lparr> host := url_host (parseUrl E u),
                          port := url_port (parseUrl E u),
                          hostname := url_hostname (parseUrl E u),
                          path := url_path (parseUrl E u) \<rparr>) hops)))
           @ tail"
    by auto
  have same: "(\<lambda>(r, u). ?d1\<lparr> host := url_host (parseUrl E u),
                          port := url_port (parseUrl E u),
                          hostname := url_hostname (parseUrl E u),
                          path := url_path (parseUrl E u) \<rparr>) =
              (\<lambda>(r, u). ?d0\<lparr> host := url_host (parseUrl E u),
                          port := url_port (parseUrl E u),
                          hostname := url_hostname (parseUrl E u),
                          path := url_path (parseUrl E u) \<rparr>)"
    unfolding d1 by (rule ext) (simp add: case_prod_beta)
  have "fst (snd (doApiRequest E options token redirectCount
                    (map (\<lambda>(r, u). Response r) (hop # hops) @ rest) s)) =
        issue s1 options @ evs"
    using doApiRequest_redirect_eq [OF Cons.prems(2) r nr s2_def rec] by (simp add: hop)
  also have "issue s1 options = [NetRequest (next_request s) ?d0, RequestProcessor (next_request s)]"
    using p1(4) by (simp add: issue_def)
  finally show ?case
    unfolding evs same n2
    by (intro exI [of _ tail]) (simp add: hop d1 upt_conv_Cons del: upt_Suc)
qed

text \<open>
  C3, as the spec states it, fails: for status 204 the executor calls \<open>resolve()\<close>
  without an argument, so the promise resolves with \<open>undefined\<close>, not with \<open>null\<close>.
\<close>

theorem no_content_is_not_null:
  "fst (doApiRequest example_env 0 (Some ''secret'') 0 [Response no_content] example_store)
   \<noteq> Resolved JNull"
  by (simp add: example_store_def no_content_def
        prepare_def setAuthorization_def forceHttps_def issue_def sent_def
        snapshot_def new_options_def assign_def authorization_def startsWith_def
        isJson_def isYaml_def onEnd_def Let_def)

text \<open>
  C3, amended. An API request whose response has status 204 resolves with \<open>undefined\<close>,
  whatever the headers and the body of the response are, and the body is not read. The
  options must allow the request to be sent: no token, or a header object to put it in.
\<close>

theorem no_content_resolves_undefined:
  assumes "statusCode response = 204"
      and "token = None \<or> request_options.headers (options_at s options) = Val h"
  shows "fst (doApiRequest E options token redirectCount (Response response # rest) s) =
           Resolved JUndefined
         \<and> ReadBody i \<notin> set (fst (snd (doApiRequest E options token redirectCount
                                         (Response response # rest) s)))"
proof -
  from assms(2) obtain s1 where "prepare options token s = Inr s1"
    by (rule prepare_ok)
  with assms(1) show ?thesis by (simp add: issue_def)
qed

text \<open>C3 at a response with status 204, a JSON content type and a body.\<close>

theorem no_content_resolves_undefined_witness:
  "statusCode no_content = 204
   \<and> request_options.headers (options_at example_store 0) = Val 0
   \<and> fst (doApiRequest example_env 0 (Some ''secret'') 0 [Response no_content] example_store) =
       Resolved JUndefined
   \<and> ReadBody 0 \<notin> set (fst (snd (doApiRequest example_env 0 (Some ''secret'') 0
                                      [Response no_content] example_store)))"
  using no_content_resolves_undefined [where response = no_content
          and token = "Some ''secret''" and s = example_store and options = 0 and h = 0
          and E = example_env and redirectCount = 0 and rest = "[]" and i = 0]
  by (simp add: no_content_def example_store_def)

text \<open>
  C7. An API request whose response has status 404 rejects with an \<open>HttpError\<close> whose
  text contains the method, the hostname and the path of the request and the advice to
  check the authentication token.
\<close>

theorem not_found_rejects_with_hint:
  assumes "statusCode response = 404"
      and "token = None \<or> request_options.headers (options_at s options) = Val h"
      and "method (options_at s options) = Val m"
      and "hostname (options_at s options) = Val hn"
      and "path (options_at s options) = Val p"
  shows "\<exists>message.
           fst (doApiRequest E options token redirectCount (Response response # rest) s) =
             Rejected (HttpError response (Some (JStr message)))
           \<and> sublist m message \<and> sublist hn message \<and> sublist p message
           \<and> sublist ''Please double check that your authentication token is correct'' message"
proof -
  from assms(2) obtain s1 where s1: "prepare options token s = Inr s1"
    "options_at s1 = (options_at s)(options := (options_at s options)\<lparr> protocol := Val ''https:'' \<rparr>)"
    by (rule prepare_ok)
  let ?ob = "options_at s1 options"
  have fields: "method ?ob = Val m" "hostname ?ob = Val hn" "path ?ob = Val p"
    using assms(3-5) s1(2) by simp_all
  have "fst (doApiRequest E options token redirectCount (Response response # rest) s) =
          Rejected (HttpError response (Some (JStr (not_found_message ?ob))))"
    using assms(1) s1(1) by (simp add: Let_def split: option.splits prod.splits)
  moreover have "sublist m (not_found_message ?ob)" "sublist hn (not_found_message ?ob)"
    "sublist p (not_found_message ?ob)"
    "sublist ''Please double check that your authentication token is correct''
       (not_found_message ?ob)"
    using sublist_not_found_message [of ?ob] fields by simp_all
  ultimately show ?thesis by blast
qed

text \<open>C7 at a GET request to api.example.org.\<close>

theorem not_found_rejects_with_hint_witness:
  "statusCode not_found = 404
   \<and> request_options.headers (options_at example_store 0) = Val 0
   \<and> method (options_at example_store 0) = Val ''GET''
   \<and> hostname (options_at example_store 0) = Val ''api.example.org''
   \<and> path (options_at example_store 0) = Val ''/repos/a/releases''
   \<and> (\<exists>message.
        fst (doApiRequest example_env 0 (Some ''secret'') 0 [Response not_found] example_store) =
          Rejected (HttpError not_found (Some (JStr message)))
        \<and> sublist ''GET'' message \<and> sublist ''api.example.org'' message
        \<and> sublist ''/repos/a/releases'' message
        \<and> sublist ''Please double check that your authentication token is correct'' message)"
  using not_found_rejects_with_hint [where response = not_found
          and token = "Some ''secret''" and s = example_store and options = 0 and h = 0
          and m = "''GET''" and hn = "''api.example.org''" and p = "''/repos/a/releases''"
          and E = example_env and redirectCount = 0 and rest = "[]"]
  by (simp add: not_found_def example_store_def)

text \<open>
  C4, as the spec states it, fails: when the value of \<open>content-type\<close> is a single
  string, the detection calls \<open>find\<close> on a string and raises a TypeError.
\<close>

theorem isJson_single_string_fails:
  "isJson json_single = Inl TypeError"
  by (simp add: isJson_def json_single_def)

text \<open>
  C4, amended. When the value of \<open>content-type\<close> is a sequence of strings, the
  detection is true exactly when some value contains \<open>json\<close>; when the header is absent
  it is false. Neither case raises an error.
\<close>

theorem isJson_of_sequence:
  "(map_of (response.headers response) ''content-type'' = Some (HArray vs) \<longrightarrow>
      isJson response = Inr (\<exists>v \<in> set vs. sublist ''json'' v))
   \<and> (map_of (response.headers response) ''content-type'' = None \<longrightarrow>
      isJson response = Inr False)"
  by (simp add: isJson_def truthy_find_json)

text \<open>C4 at a response with a JSON content type and at one without content type.\<close>

theorem isJson_of_sequence_witness:
  "map_of (response.headers ok_json) ''content-type'' =
     Some (HArray [''application/json; charset=utf-8''])
   \<and> isJson ok_json = Inr True
   \<and> map_of (response.headers not_found) ''content-type'' = None
   \<and> isJson not_found = Inr False"
  using isJson_of_sequence [where response = ok_json
          and vs = "[''application/json; charset=utf-8'']"]
        isJson_of_sequence [where response = not_found and vs = "[]"]
  by (simp add: ok_json_def not_found_def sublist_code)

text \<open>
  C9, as the spec states it, fails in two places: a response with status 204 resolves
  with \<open>undefined\<close> and its body is not parsed, and a \<open>content-type\<close> that is a single
  string rejects with a TypeError.
\<close>

theorem no_content_skips_parsing:
  "statusCode no_content < 400
   \<and> safeGetHeader example_env no_content ''location'' = None
   \<and> body no_content \<noteq> []
   \<and> JSON_parse example_env (body no_content) = Inr (JObj [(''a'', JNum 1)])
   \<and> fst (doApiRequest example_env 0 (Some ''secret'') 0 [Response no_content] example_store)
       \<noteq> Resolved (JObj [(''a'', JNum 1)])
   \<and> statusCode json_single < 400
   \<and> safeGetHeader example_env json_single ''location'' = None
   \<and> fst (doApiRequest example_env 0 (Some ''secret'') 0 [Response json_single] example_store)
       = Rejected TypeError"
  by (simp add: example_env_def example_store_def lastValue_def no_content_def
        json_single_def json_a1_def
        prepare_def setAuthorization_def forceHttps_def issue_def sent_def
        snapshot_def new_options_def assign_def authorization_def startsWith_def
        isJson_def isYaml_def onEnd_def Let_def)

text \<open>
  C9, amended. For a response without \<open>location\<close> header, with a status below 400 other
  than 204 and a \<open>content-type\<close> that is absent or a sequence of strings, and a request
  with a path: an empty body resolves with \<open>null\<close>; otherwise a content type containing
  \<open>json\<close> gives the result of \<open>JSON.parse\<close>, otherwise a path containing \<open>.yml\<close> gives
  the result of \<open>safeLoad\<close>, otherwise the body is returned as text. An exception of a
  parser rejects.
\<close>

theorem parse_by_content_type:
  assumes "statusCode response < 400" and "statusCode response \<noteq> 204"
      and "safeGetHeader E response ''location'' = None"
      and "\<forall>v. map_of (response.headers response) ''content-type'' \<noteq> Some (HString v)"
      and "path (options_at s options) = Val p"
      and "token = None \<or> request_options.headers (options_at s options) = Val h"
  shows "fst (doApiRequest E options token redirectCount (Response response # rest) s) =
           (if body response = [] then Resolved JNull
            else if (case map_of (response.headers response) ''content-type'' of
                       Some (HArray vs) \<Rightarrow> \<exists>v \<in> set vs. sublist ''json'' v
                     | _ \<Rightarrow> False)
            then (case JSON_parse E (body response) of
                    Inl e \<Rightarrow> Rejected e | Inr v \<Rightarrow> Resolved v)
            else if sublist ''.yml'' p
            then (case safeLoad E (body response) of
                    Inl e \<Rightarrow> Rejected e | Inr v \<Rightarrow> Resolved v)
            else Resolved (JStr (body response)))"
proof -
  from assms(6) obtain s1 where s1: "prepare options token s = Inr s1"
    "options_at s1 = (options_at s)(options := (options_at s options)\<lparr> protocol := Val ''https:'' \<rparr>)"
    by (rule prepare_ok)
  have p: "isYaml (options_at s1 options) = Inr (sublist ''.yml'' p)"
    using assms(5) s1(2) by (simp add: isYaml_def str_includes_iff)
  have j: "isJson response =
             Inr (case map_of (response.headers response) ''content-type'' of
                    Some (HArray vs) \<Rightarrow> \<exists>v \<in> set vs. sublist ''json'' v
                  | _ \<Rightarrow> False)"
    using assms(4) by (simp add: isJson_def truthy_find_json split: option.splits header_value.splits)
  have "fst (doApiRequest E options token redirectCount (Response response # rest) s) =
          onEnd E (options_at s1 options) response"
    using assms(1-3) s1(1) by (simp add: Let_def)
  also have "\<dots> = (if body response = [] then Resolved JNull
            else if (case map_of (response.headers response) ''content-type'' of
                       Some (HArray vs) \<Rightarrow> \<exists>v \<in> set vs. sublist ''json'' v
                     | _ \<Rightarrow> False)
            then (case JSON_parse E (body response) of
                    Inl e \<Rightarrow> Rejected e | Inr v \<Rightarrow> Resolved v)
            else if sublist ''.yml'' p
            then (case safeLoad E (body response) of
                    Inl e \<Rightarrow> Rejected e | Inr v \<Rightarrow> Resolved v)
            else Resolved (JStr (body response)))"
    using assms(1) unfolding onEnd_def j p by (simp add: Let_def)
  finally show ?thesis .
qed

text \<open>C9 at the body \<open>{"a":1}\<close> with a JSON content type: the value is \<open>{a: 1}\<close>.\<close>

theorem parse_by_content_type_witness:
  "statusCode ok_json < 400 \<and> statusCode ok_json \<noteq> 204
   \<and> safeGetHeader example_env ok_json ''location'' = None
   \<and> (\<forall>v. map_of (response.headers ok_json) ''content-type'' \<noteq> Some (HString v))
   \<and> path (options_at example_store 0) = Val ''/repos/a/releases''
   \<and> request_options.headers (options_at example_store 0) = Val 0
   \<and> fst (doApiRequest example_env 0 (Some ''secret'') 0 [Response ok_json] example_store) =
       Resolved (JObj [(''a'', JNum 1)])"
  using parse_by_content_type [where response = ok_json and E = example_env
          and s = example_store and options = 0 and p = "''/repos/a/releases''"
          and token = "Some ''secret''" and h = 0 and redirectCount = 0 and rest = "[]"]
  by (simp add: ok_json_def example_env_def example_store_def lastValue_def json_a1_def
        sublist_code)

text \<open>
  C5. Within one logical call every request is created with a new number and is handed
  to the request processor exactly once, at its creation; so the processor is applied at
  most once to the original request. Every later request is derived from a redirect
  target: its host, hostname, port and path are those of the parsed \<open>location\<close> of a
  response. Along a chain of followed redirects the run begins with exactly one new
  request per hop, numbered in order, each handed to the processor once before the next
  is created: the first carries the options given (with the protocol \<open>https:\<close> and the
  authorization header), the request of each redirect hop carries host, hostname, port
  and path of the parsed \<open>location\<close> of the response before it, with the same method
  and headers.
\<close>

theorem requestProcessor_once_per_request:
  "processor_calls (fst (snd (doApiRequest E options token redirectCount replies s))) =
     requests (fst (snd (doApiRequest E options token redirectCount replies s)))
   \<and> distinct (requests (fst (snd (doApiRequest E options token redirectCount replies s))))
   \<and> count_list (processor_calls (fst (snd (doApiRequest E options token redirectCount replies s))))
        (next_request s) \<le> 1
   \<and> (\<forall>i d. NetRequest i d \<in> set (fst (snd (doApiRequest E options token redirectCount replies s)))
          \<and> i \<noteq> next_request s \<longrightarrow>
          (\<exists>r u. Response r \<in> set replies \<and> safeGetHeader E r ''location'' = Some u
             \<and> host d = url_host (parseUrl E u) \<and> hostname d = url_hostname (parseUrl E u)
             \<and> port d = url_port (parseUrl E u) \<and> path d = url_path (parseUrl E u)))
   \<and> ((token = None \<or> request_options.headers (options_at s options) = Val h)
        \<and> (\<forall>(r, u) \<in> set hops. statusCode r \<noteq> 204 \<and> safeGetHeader E r ''location'' = Some u)
        \<and> redirectCount \<le> 10 \<longrightarrow>
        (\<exists>tail. fst (snd (doApiRequest E options token redirectCount
                             (map (\<lambda>(r, u). Response r) hops @ rest) s)) =
           concat (map (\<lambda>(i, d). [NetRequest i d, RequestProcessor i])
             (zip [next_request s ..< next_request s + Suc (length hops)]
                (\<lparr> method = method (options_at s options), protocol = Val ''https:'',
                   host = host (options_at s options),
                   hostname = hostname (options_at s options),
                   port = port (options_at s options), path = path (options_at s options),
                   headers = map_maybe
                     (case token of None \<Rightarrow> headers_at s
                      | Some t \<Rightarrow> (headers_at s)
                          (h := AList.update ''authorization'' (authorization t)
                                  (headers_at s h)))
                     (request_options.headers (options_at s options)) \<rparr>
                 # map (\<lambda>(r, u).
                     \<lparr> method = method (options_at s options), protocol = Val ''https:'',
                       host = url_host (parseUrl E u),
                       hostname = url_hostname (parseUrl E u),
                       port = url_port (parseUrl E u), path = url_path (parseUrl E u),
                       headers = map_maybe
                         (case token of None \<Rightarrow> headers_at s
                          | Some t \<Rightarrow> (headers_at s)
                              (h := AList.update ''authorization'' (authorization t)
                                      (headers_at s h)))
                         (request_options.headers (options_at s options)) \<rparr>) hops)))
           @ tail))"
proof -
  obtain result evs s' where run:
    "doApiRequest E options token redirectCount replies s = (result, evs, s')"
    by (cases "doApiRequest E options token redirectCount replies s")
  from doApiRequest_ids [OF run]
  have ids: "requests evs = [next_request s ..< next_request s']"
    "processor_calls evs = [next_request s ..< next_request s']"
    by simp_all
  have a: "processor_calls evs = requests evs" using ids by simp
  have b: "distinct (requests evs)" using ids by simp
  have c: "count_list (processor_calls evs) (next_request s) \<le> 1"
    using a b distinct_count_le_1 [of "requests evs" "next_request s"] by simp
  have d: "\<exists>r u. Response r \<in> set replies \<and> safeGetHeader E r ''location'' = Some u
             \<and> host d = url_host (parseUrl E u) \<and> hostname d = url_hostname (parseUrl E u)
             \<and> port d = url_port (parseUrl E u) \<and> path d = url_path (parseUrl E u)"
    if "NetRequest i d \<in> set evs" "i \<noteq> next_request s" for i d
  proof -
    from that(1) run
    have "NetRequest i d \<in> set (fst (snd (doApiRequest E options token redirectCount replies s)))"
      by simp
    from doApiRequest_targets [OF this] that(2) show ?thesis by blast
  qed
  have e: "\<exists>tail. fst (snd (doApiRequest E options token redirectCount
                             (map (\<lambda>(r, u). Response r) hops @ rest) s)) =
           concat (map (\<lambda>(i, d). [NetRequest i d, RequestProcessor i])
             (zip [next_request s ..< next_request s + Suc (length hops)]
                (\<lparr> method = method (options_at s options), protocol = Val ''https:'',
                   host = host (options_at s options),
                   hostname = hostname (options_at s options),
                   port = port (options_at s options), path = path (options_at s options),
                   headers = map_maybe
                     (case token of None \<Rightarrow> headers_at s
                      | Some t \<Rightarrow> (headers_at s)
                          (h := AList.update ''authorization'' (authorization t)
                                  (headers_at s h)))
                     (request_options.headers (options_at s options)) \<rparr>
                 # map (\<lambda>(r, u).
                     \<lparr> method = method (options_at s options), protocol = Val ''https:'',
                       host = url_host (parseUrl E u),
                       hostname = url_hostname (parseUrl E u),
                       port = url_port (parseUrl E u), path = url_path (parseUrl E u),
                       headers = map_maybe
                         (case token of None \<Rightarrow> headers_at s
                          | Some t \<Rightarrow> (headers_at s)
                              (h := AList.update ''authorization'' (authorization t)
                                      (headers_at s h)))
                         (request_options.headers (options_at s options)) \<rparr>) hops)))
           @ tail"
    if hdr: "token = None \<or> request_options.headers (options_at s options) = Val h"
      and hops: "\<forall>(r, u) \<in> set hops. statusCode r \<noteq> 204
                   \<and> safeGetHeader E r ''location'' = Some u"
      and rc: "redirectCount \<le> 10"
  proof -
    from hdr obtain s1 where s1: "prepare options token s = Inr s1"
      by (rule prepare_ok)
    note d0 = snapshot_prepared [OF hdr s1]
    from doApiRequest_chain [OF hdr s1 hops rc, of rest]
    show ?thesis unfolding d0 by simp
  qed
  from a b c d e show ?thesis unfolding run by simp blast
qed

text \<open>C5 at a chain of two redirects: three requests, each processed once.\<close>

theorem requestProcessor_once_per_request_witness:
  "request_options.headers (options_at example_store 0) = Val 0
   \<and> statusCode (redirect_to ''https://example.org:8443/a/latest.yml'') \<noteq> 204
   \<and> safeGetHeader example_env (redirect_to ''https://example.org:8443/a/latest.yml'')
         ''location'' = Some ''https://example.org:8443/a/latest.yml''
   \<and> statusCode (redirect_to ''/next'') \<noteq> 204
   \<and> safeGetHeader example_env (redirect_to ''/next'') ''location'' = Some ''/next''
   \<and> (\<exists>tail. fst (snd (doApiRequest example_env 0 (Some ''secret'') 0
                          [Response (redirect_to ''https://example.org:8443/a/latest.yml''),
                           Response (redirect_to ''/next''), Response ok_json]
                          example_store)) =
        [NetRequest 0
           \<lparr> method = Val ''GET'', protocol = Val ''https:'', host = Undefined,
             hostname = Val ''api.example.org'', port = Undefined,
             path = Val ''/repos/a/releases'',
             headers = Val [(''Accept'', ''application/json''),
                            (''authorization'', ''token secret'')] \<rparr>,
         RequestProcessor 0,
         NetRequest 1
           \<lparr> method = Val ''GET'', protocol = Val ''https:'', host = Val ''example.org:8443'',
             hostname = Val ''example.org'', port = Val ''8443'', path = Val ''/a/latest.yml'',
             headers = Val [(''Accept'', ''application/json''),
                            (''authorization'', ''token secret'')] \<rparr>,
         RequestProcessor 1,
         NetRequest 2
           \<lparr> method = Val ''GET'', protocol = Val ''https:'', host = Null,
             hostname = Null, port = Null, path = Val ''/next'',
             headers = Val [(''Accept'', ''application/json''),
                            (''authorization'', ''token secret'')] \<rparr>,
         RequestProcessor 2] @ tail)
   \<and> processor_calls (fst (snd (doApiRequest example_env 0 (Some ''secret'') 0
                          [Response (redirect_to ''https://example.org:8443/a/latest.yml''),
                           Response (redirect_to ''/next''), Response ok_json]
                          example_store))) = [0, 1, 2]
   \<and> NetRequest 2
           \<lparr> method = Val ''GET'', protocol = Val ''https:'', host = Null,
             hostname = Null, port = Null, path = Val ''/next'',
             headers = Val [(''Accept'', ''application/json''),
                            (''authorization'', ''token secret'')] \<rparr>
       \<in> set (fst (snd (doApiRequest example_env 0 (Some ''secret'') 0
                          [Response (redirect_to ''https://example.org:8443/a/latest.yml''),
                           Response (redirect_to ''/next''), Response ok_json]
                          example_store)))
   \<and> 2 \<noteq> next_request example_store
   \<and> (\<exists>r u. Response r \<in> set [Response (redirect_to ''https://example.org:8443/a/latest.yml''),
                                 Response (redirect_to ''/next''), Response ok_json]
         \<and> safeGetHeader example_env r ''location'' = Some u
         \<and> Val ''/next'' = url_path (parseUrl example_env u))"
proof -
  let ?U = "''https://example.org:8443/a/latest.yml''"
  let ?hops = "[(redirect_to ?U, ?U), (redirect_to ''/next'', ''/next'')]"
  let ?replies = "[Response (redirect_to ?U), Response (redirect_to ''/next''), Response ok_json]"
  let ?evs = "fst (snd (doApiRequest example_env 0 (Some ''secret'') 0 ?replies example_store))"
  let ?hdrs = "Val [(''Accept'', ''application/json''), (''authorization'', ''token secret'')]"
  let ?d0 = "\<lparr> method = Val ''GET'', protocol = Val ''https:'', host = Undefined,
             hostname = Val ''api.example.org'', port = Undefined,
             path = Val ''/repos/a/releases'', headers = ?hdrs \<rparr>"
  let ?d1 = "\<lparr> method = Val ''GET'', protocol = Val ''https:'', host = Val ''example.org:8443'',
             hostname = Val ''example.org'', port = Val ''8443'', path = Val ''/a/latest.yml'',
             headers = ?hdrs \<rparr>"
  let ?d2 = "\<lparr> method = Val ''GET'', protocol = Val ''https:'', host = Null,
             hostname = Null, port = Null, path = Val ''/next'', headers = ?hdrs \<rparr>"
  have E: "parseUrl example_env = example_parseUrl" "safeGetHeader example_env = lastValue"
    by (simp_all add: example_env_def)
  have hdr: "request_options.headers (options_at example_store 0) = Val 0"
    by (simp add: example_store_def)
  have hops: "\<forall>(r, u) \<in> set ?hops.
                statusCode r \<noteq> 204 \<and> safeGetHeader example_env r ''location'' = Some u"
    by (simp add: E redirect_to_simps)
  note once = requestProcessor_once_per_request [where E = example_env and options = 0
         and token = "Some ''secret''" and redirectCount = 0 and s = example_store and h = 0
         and hops = ?hops and rest = "[Response ok_json]" and replies = ?replies]
  from once hdr hops
  have "\<exists>tail. fst (snd (doApiRequest example_env 0 (Some ''secret'') 0
                             (map (\<lambda>(r, u). Response r) ?hops @ [Response ok_json])
                             example_store)) =
           concat (map (\<lambda>(i, d). [NetRequest i d, RequestProcessor i])
             (zip [next_request example_store ..< next_request example_store + Suc (length ?hops)]
                (\<lparr> method = method (options_at example_store 0), protocol = Val ''https:'',
                   host = host (options_at example_store 0),
                   hostname = hostname (options_at example_store 0),
                   port = port (options_at example_store 0),
                   path = path (options_at example_store 0),
                   headers = map_maybe
                     (case Some ''secret'' of None \<Rightarrow> headers_at example_store
                      | Some t \<Rightarrow> (headers_at example_store)
                          (0 := AList.update ''authorization'' (authorization t)
                                  (headers_at example_store 0)))
                     (request_options.headers (options_at example_store 0)) \<rparr>
                 # map (\<lambda>(r, u).
                     \<lparr> method = method (options_at example_store 0), protocol = Val ''https:'',
                       host = url_host (parseUrl example_env u),
                       hostname = url_hostname (parseUrl example_env u),
                       port = url_port (parseUrl example_env u),
                       path = url_path (parseUrl example_env u),
                       headers = map_maybe
                         (case Some ''secret'' of None \<Rightarrow> headers_at example_store
                          | Some t \<Rightarrow> (headers_at example_store)
                              (0 := AList.update ''authorization'' (authorization t)
                                      (headers_at example_store 0)))
                         (request_options.headers (options_at example_store 0)) \<rparr>) ?hops)))
           @ tail"
    by blast
  then have chain: "\<exists>tail. ?evs =
      [NetRequest 0 ?d0, RequestProcessor 0, NetRequest 1 ?d1, RequestProcessor 1,
       NetRequest 2 ?d2, RequestProcessor 2] @ tail"
    by (simp add: E example_store_def example_parseUrl_def authorization_def startsWith_def
          upt_rec eval_nat_numeral del: doApiRequest.simps)
  then obtain tail where evs: "?evs =
      [NetRequest 0 ?d0, RequestProcessor 0, NetRequest 1 ?d1, RequestProcessor 1,
       NetRequest 2 ?d2, RequestProcessor 2] @ tail"
    by blast
  have mem: "NetRequest 2 ?d2 \<in> set ?evs" unfolding evs by simp
  have ne: "2 \<noteq> next_request example_store" by (simp add: example_store_def)
  have count: "processor_calls ?evs = [0, 1, 2]"
    by (simp add: example_env_def example_store_def example_parseUrl_def lastValue_def
          redirect_to_def ok_json_def json_a1_def
          prepare_def setAuthorization_def forceHttps_def issue_def sent_def
          snapshot_def new_options_def assign_def authorization_def startsWith_def
          isJson_def isYaml_def onEnd_def Let_def)
  from once have "\<forall>i d. NetRequest i d \<in> set ?evs \<and> i \<noteq> next_request example_store \<longrightarrow>
          (\<exists>r u. Response r \<in> set ?replies
             \<and> safeGetHeader example_env r ''location'' = Some u
             \<and> host d = url_host (parseUrl example_env u)
             \<and> hostname d = url_hostname (parseUrl example_env u)
             \<and> port d = url_port (parseUrl example_env u)
             \<and> path d = url_path (parseUrl example_env u))"
    by blast
  with mem ne have "\<exists>r u. Response r \<in> set ?replies
             \<and> safeGetHeader example_env r ''location'' = Some u
             \<and> host ?d2 = url_host (parseUrl example_env u)
             \<and> hostname ?d2 = url_hostname (parseUrl example_env u)
             \<and> port ?d2 = url_port (parseUrl example_env u)
             \<and> path ?d2 = url_path (parseUrl example_env u)"
    by blast
  then have target: "\<exists>r u. Response r \<in> set ?replies
         \<and> safeGetHeader example_env r ''location'' = Some u
         \<and> Val ''/next'' = url_path (parseUrl example_env u)"
    by auto
  have hop: "statusCode (redirect_to ?U) \<noteq> 204"
    "safeGetHeader example_env (redirect_to ?U) ''location'' = Some ?U"
    "statusCode (redirect_to ''/next'') \<noteq> 204"
    "safeGetHeader example_env (redirect_to ''/next'') ''location'' = Some ''/next''"
    using hops by simp_all
  from hdr hop chain count mem ne target show ?thesis by blast
qed

text \<open>
  C6, as the spec states it, fails: the executor writes the protocol and the
  authorization header into the caller's objects.
\<close>

theorem caller_options_mutated:
  "options_at (snd (snd (doApiRequest example_env 0 (Some ''secret'') 0 [] example_store))) 0
     \<noteq> options_at example_store 0
   \<and> headers_at (snd (snd (doApiRequest example_env 0 (Some ''secret'') 0 [] example_store))) 0
     \<noteq> headers_at example_store 0"
  by (simp add: example_store_def
        prepare_def setAuthorization_def forceHttps_def issue_def sent_def
        snapshot_def new_options_def assign_def authorization_def startsWith_def
        isJson_def isYaml_def onEnd_def Let_def)

text \<open>
  C6, amended. After a request the caller's options object differs from before in its
  protocol only, which is \<open>https:\<close>; the header object it refers to has \<open>authorization\<close>
  set when a token is given and is unchanged otherwise; the other option objects of the
  caller are unchanged. A followed redirect creates a new object: the properties of the
  previous one with host, port, hostname and path of the parsed redirect URL, the
  protocol \<open>https:\<close>, and the same method and header object.
\<close>

theorem caller_options_after_request:
  assumes "options < next_options s"
      and "token = None \<or> request_options.headers (options_at s options) = Val h"
  shows "options_at (snd (snd (doApiRequest E options token redirectCount replies s))) options =
           (options_at s options)\<lparr> protocol := Val ''https:'' \<rparr>
       \<and> headers_at (snd (snd (doApiRequest E options token redirectCount replies s))) =
           (case token of None \<Rightarrow> headers_at s
            | Some t \<Rightarrow> (headers_at s)
                (h := AList.update ''authorization'' (authorization t) (headers_at s h)))
       \<and> (\<forall>r < next_options s. r \<noteq> options \<longrightarrow>
            options_at (snd (snd (doApiRequest E options token redirectCount replies s))) r =
            options_at s r)
       \<and> (\<forall>response rest u. replies = Response response # rest
              \<and> statusCode response \<noteq> 204
              \<and> safeGetHeader E response ''location'' = Some u \<and> redirectCount \<le> 10 \<longrightarrow>
            options_at (snd (snd (doApiRequest E options token redirectCount replies s)))
                (next_options s) =
              (options_at s options)\<lparr> protocol := Val ''https:'',
                 host := url_host (parseUrl E u), port := url_port (parseUrl E u),
                 hostname := url_hostname (parseUrl E u), path := url_path (parseUrl E u) \<rparr>)"
  using doApiRequest_frame [OF assms, of E redirectCount replies]
        doApiRequest_new_descriptor [OF assms(2), of _ E _ redirectCount]
  by blast

text \<open>C6 at one redirect, with a second options object of the caller in the store.\<close>

theorem caller_options_after_request_witness:
  "(0::nat) < next_options example_store
   \<and> request_options.headers (options_at example_store 0) = Val 0
   \<and> options_at (snd (snd (doApiRequest example_env 0 (Some ''secret'') 0
          [Response (redirect_to ''https://example.org:8443/a/latest.yml'')] example_store))) 0 =
       \<lparr> method = Val ''GET'', protocol = Val ''https:'', host = Undefined,
         hostname = Val ''api.example.org'', port = Undefined,
         path = Val ''/repos/a/releases'', headers = Val 0 \<rparr>
   \<and> headers_at (snd (snd (doApiRequest example_env 0 (Some ''secret'') 0
          [Response (redirect_to ''https://example.org:8443/a/latest.yml'')] example_store))) 0 =
       [(''Accept'', ''application/json''), (''authorization'', ''token secret'')]
   \<and> (1::nat) < next_options example_store \<and> (1::nat) \<noteq> 0
   \<and> options_at (snd (snd (doApiRequest example_env 0 (Some ''secret'') 0
          [Response (redirect_to ''https://example.org:8443/a/latest.yml'')] example_store))) 1 =
       options_at example_store 1
   \<and> statusCode (redirect_to ''https://example.org:8443/a/latest.yml'') \<noteq> 204
   \<and> safeGetHeader example_env (redirect_to ''https://example.org:8443/a/latest.yml'') ''location''
       = Some ''https://example.org:8443/a/latest.yml''
   \<and> options_at (snd (snd (doApiRequest example_env 0 (Some ''secret'') 0
          [Response (redirect_to ''https://example.org:8443/a/latest.yml'')] example_store)))
        (next_options example_store) =
       \<lparr> method = Val ''GET'', protocol = Val ''https:'', host = Val ''example.org:8443'',
         hostname = Val ''example.org'', port = Val ''8443'',
         path = Val ''/a/latest.yml'', headers = Val 0 \<rparr>"
  using caller_options_after_request [where E = example_env and options = 0
         and token = "Some ''secret''" and redirectCount = 0 and s = example_store and h = 0
         and replies = "[Response (redirect_to ''https://example.org:8443/a/latest.yml'')]"]
  by (simp add: example_env_def example_store_def example_parseUrl_def lastValue_def
        redirect_to_def authorization_def startsWith_def)

text \<open>
  C2. The redirect count of an API request is reset at every hop: the recursive call
  passes no count, so it starts at 0 again. The executor follows a chain of any length
  \<open>k\<close>, longer than 10 as well, and resolves with the final response instead of rejecting
  with the error for too many redirects.
\<close>

theorem doApiRequest_follows_over_long_chain:
  "fst (doApiRequest example_env 0 (Some ''secret'') 0
          (replicate k (Response (redirect_to ''/next'')) @ [Response ok_json]) example_store) =
   Resolved (JObj [(''a'', JNum 1)])"
proof -
  have E: "safeGetHeader example_env = lastValue" "parseUrl example_env = example_parseUrl"
    "JSON_parse example_env json_a1 = Inr (JObj [(''a'', JNum 1)])"
    by (simp_all add: example_env_def)
  have "fst (doApiRequest example_env 0 (Some ''secret'') 0
          (map Response (replicate k (redirect_to ''/next'')) @ [Response ok_json]) example_store) =
        Resolved (JObj [(''a'', JNum 1)])"
  proof (rule doApiRequest_follows [where h = 0 and u = "''/next''"
          and p = "''/repos/a/releases''" and p' = "''/next''"])
    show "Some ''secret'' = None \<or>
          request_options.headers (options_at example_store 0) = Val 0"
      by (simp add: example_store_def)
    show "\<forall>r\<in>set (replicate k (redirect_to ''/next'')).
       statusCode r \<noteq> 204 \<and> statusCode r \<noteq> 404 \<and>
       safeGetHeader example_env r ''location'' = Some ''/next''"
      by (simp add: E redirect_to_simps)
    show "(0::nat) \<le> 10" by simp
    show "statusCode ok_json = 200" by (simp add: ok_json_def)
    show "safeGetHeader example_env ok_json ''location'' = None"
      by (simp add: E ok_json_def lastValue_def)
    show "isJson ok_json = Inr True" by (simp add: isJson_def ok_json_def)
    show "JSON_parse example_env (body ok_json) = Inr (JObj [(''a'', JNum 1)])"
      by (simp add: E ok_json_def)
    show "body ok_json \<noteq> []" by (simp add: ok_json_def json_a1_def)
    show "path (options_at example_store 0) = Val ''/repos/a/releases''"
      by (simp add: example_store_def)
    show "url_path (parseUrl example_env ''/next'') = Val ''/next''"
      by (simp add: E example_parseUrl_def)
  qed
  then show ?thesis by simp
qed

end
